theory Spec2Isabelle
  imports Complex_Main "HOL-Library.Char_ord" "HOL-Library.List_Lexorder"
    "HOL-Library.Product_Lexorder" "HOL-Library.Multiset"
begin

section \<open>Python values used by the three scripts\<close>

text \<open>
  The scripts \<^verbatim>\<open>TaskC/task_c.py\<close>, \<^verbatim>\<open>TaskD/task_d.py\<close> and \<^verbatim>\<open>TaskE/task_e.py\<close> are embedded
  function by function. A Python \<^verbatim>\<open>str\<close> is a \<^typ>\<open>string\<close> whose characters are the code
  points U+0000 to U+00FF, one \<^typ>\<open>char\<close> each; on that range the character classes below
  are the interpreter's. An exception is a value of \<open>py_error\<close> on the left of a sum.
\<close>

datatype value_error =
    Invalid_int_literal string      \<comment> \<open>invalid literal for int() with base 10: repr of the argument\<close>
  | Not_a_float string              \<comment> \<open>could not convert string to float: repr of the argument\<close>
  | Format_mismatch string string   \<comment> \<open>time data (repr) does not match format (format)\<close>
  | Unconverted_data string         \<comment> \<open>unconverted data remains: the unread tail\<close>
  | Out_of_range                    \<comment> \<open>a calendar field outside its range; the message has no input text\<close>

datatype py_error =
    ValueError value_error
  | IndexError
  | KeyError string
  | TypeError
  | OverflowError

definition then_e :: "'e + 'a \<Rightarrow> ('a \<Rightarrow> 'e + 'b) \<Rightarrow> 'e + 'b" where
  "then_e m f = (case m of Inl e \<Rightarrow> Inl e | Inr x \<Rightarrow> f x)"

definition nth_e :: "'a list \<Rightarrow> nat \<Rightarrow> py_error + 'a" where
  \<comment> \<open>\<^verbatim>\<open>xs[i]\<close> for a non-negative index\<close>
  "nth_e xs i = (if i < length xs then Inr (xs ! i) else Inl IndexError)"

subsection \<open>Characters and strings\<close>

definition isspace :: "char \<Rightarrow> bool" where
  \<comment> \<open>\<^verbatim>\<open>str.isspace\<close> on one character: TAB to CR, FS to US, space, NEL, NBSP\<close>
  "isspace c = (let n = (of_char c :: int) in
     (9 \<le> n \<and> n \<le> 13) \<or> (28 \<le> n \<and> n \<le> 32) \<or> n = 133 \<or> n = 160)"

definition num_space :: "char \<Rightarrow> bool" where
  \<comment> \<open>what \<^verbatim>\<open>int()\<close> and \<^verbatim>\<open>float()\<close> skip around a literal: non-ASCII spaces are first
      turned into a blank, then the C locale's white space is skipped\<close>
  "num_space c = (let n = (of_char c :: int) in
     (9 \<le> n \<and> n \<le> 13) \<or> n = 32 \<or> n = 133 \<or> n = 160)"

definition is_decimal :: "char \<Rightarrow> bool" where
  \<comment> \<open>a decimal digit (Unicode category Nd): what \<^verbatim>\<open>int()\<close> and the pattern \<^verbatim>\<open>\d\<close> accept\<close>
  "is_decimal c = (CHR ''0'' \<le> c \<and> c \<le> CHR ''9'')"

definition isdigit :: "char \<Rightarrow> bool" where
  \<comment> \<open>\<^verbatim>\<open>str.isdigit\<close> on one character: the decimal digits and the superscripts
      two, three (U+00B2, U+00B3) and one (U+00B9)\<close>
  "isdigit c = (is_decimal c \<or> of_char c \<in> {178, 179, 185 :: int})"

definition digit_val :: "char \<Rightarrow> int" where
  "digit_val c = of_char c - 48"

definition strip_by :: "(char \<Rightarrow> bool) \<Rightarrow> string \<Rightarrow> string" where
  "strip_by p s = rev (dropWhile p (rev (dropWhile p s)))"

definition strip :: "string \<Rightarrow> string" where
  \<comment> \<open>\<^verbatim>\<open>str.strip()\<close>\<close>
  "strip s = strip_by isspace s"


definition replace_char :: "char \<Rightarrow> char \<Rightarrow> string \<Rightarrow> string" where
  \<comment> \<open>\<^verbatim>\<open>s.replace(a, b)\<close> for one-character \<^verbatim>\<open>a\<close> and \<^verbatim>\<open>b\<close>\<close>
  "replace_char a b s = map (\<lambda>c. if c = a then b else c) s"

definition ljust :: "nat \<Rightarrow> string \<Rightarrow> string" where
  \<comment> \<open>the format specification \<^verbatim>\<open><n\<close> on a string: pad on the right, never cut\<close>
  "ljust n s = s @ replicate (n - length s) CHR '' ''"

fun join :: "string \<Rightarrow> string list \<Rightarrow> string" where
  \<comment> \<open>\<^verbatim>\<open>sep.join(xs)\<close>\<close>
  "join sep [] = []"
| "join sep [x] = x"
| "join sep (x # y # ys) = x @ sep @ join sep (y # ys)"

subsection \<open>Integers and their literals\<close>

fun digits_tail :: "int \<Rightarrow> string \<Rightarrow> int option" where
  \<comment> \<open>the rest of a digit part, after at least one digit: digits, each optionally
      preceded by one underscore\<close>
  "digits_tail acc [] = Some acc"
| "digits_tail acc [c] = (if is_decimal c then Some (10 * acc + digit_val c) else None)"
| "digits_tail acc (c # d # ds) =
     (if is_decimal c then digits_tail (10 * acc + digit_val c) (d # ds)
      else if c = CHR ''_'' \<and> is_decimal d then digits_tail (10 * acc + digit_val d) ds
      else None)"

definition digit_part :: "string \<Rightarrow> int option" where
  "digit_part s = (case s of [] \<Rightarrow> None
     | c # cs \<Rightarrow> if is_decimal c then digits_tail (digit_val c) cs else None)"

definition int_literal :: "string \<Rightarrow> int option" where
  "int_literal s = (case s of [] \<Rightarrow> None
     | c # cs \<Rightarrow>
         if c = CHR ''+'' then digit_part cs
         else if c = CHR ''-'' then map_option uminus (digit_part cs)
         else digit_part s)"

definition py_int :: "string \<Rightarrow> py_error + int" where
  \<comment> \<open>\<^verbatim>\<open>int(s)\<close> on a string, base 10. The interpreter's configurable cap on the number
      of digits is left out: where the model fails the interpreter fails, and where the
      interpreter returns the model returns the same integer.\<close>
  "py_int s = (case int_literal (strip_by num_space s) of
       None \<Rightarrow> Inl (ValueError (Invalid_int_literal s))
     | Some n \<Rightarrow> Inr n)"

definition digit_char :: "int \<Rightarrow> char" where
  "digit_char n = char_of (48 + n)"

function dec_digits :: "int \<Rightarrow> string" where
  \<comment> \<open>the decimal digits of an integer that is not negative\<close>
  "dec_digits n = (if n < 10 then [digit_char n]
                   else dec_digits (n div 10) @ [digit_char (n mod 10)])"
  by pat_completeness auto
termination
  by (relation "measure nat") auto

declare dec_digits.simps [simp del]

definition str_int :: "int \<Rightarrow> string" where
  \<comment> \<open>\<^verbatim>\<open>str(n)\<close> of an integer\<close>
  "str_int n = (if n < 0 then CHR ''-'' # dec_digits (- n) else dec_digits n)"

definition zero_pad :: "nat \<Rightarrow> int \<Rightarrow> string" where
  \<comment> \<open>a number on at least \<open>w\<close> digits, as \<^verbatim>\<open>%02d\<close> and \<^verbatim>\<open>%04d\<close> write it\<close>
  "zero_pad w n = (let s = dec_digits n in replicate (w - length s) CHR ''0'' @ s)"

subsection \<open>Dates and times\<close>

record date =
  year :: int
  month :: int
  day :: int

record time_of_day =
  hour :: int
  minute :: int
  second :: int

text \<open>Python's \<^verbatim>\<open>datetime\<close> is a subclass of \<^verbatim>\<open>date\<close>: the record extends \<open>date\<close>.\<close>

record datetime = date +
  dt_hour :: int
  dt_minute :: int
  dt_second :: int

definition is_leap :: "int \<Rightarrow> bool" where
  "is_leap y = (y mod 4 = 0 \<and> (y mod 100 \<noteq> 0 \<or> y mod 400 = 0))"

definition days_in_month :: "int \<Rightarrow> int \<Rightarrow> int" where
  "days_in_month y m =
     (if m = 2 then (if is_leap y then 29 else 28)
      else if m \<in> {4, 6, 9, 11} then 30 else 31)"

definition valid_date :: "int \<Rightarrow> int \<Rightarrow> int \<Rightarrow> bool" where
  \<comment> \<open>the checks of the \<^verbatim>\<open>date\<close> constructor: years 1 to 9999\<close>
  "valid_date y m d =
     (1 \<le> y \<and> y \<le> 9999 \<and> 1 \<le> m \<and> m \<le> 12 \<and> 1 \<le> d \<and> d \<le> days_in_month y m)"

definition days_before_year :: "int \<Rightarrow> int" where
  "days_before_year y = (y - 1) * 365 + (y - 1) div 4 - (y - 1) div 100 + (y - 1) div 400"

definition days_before_month :: "int \<Rightarrow> int \<Rightarrow> int" where
  "days_before_month y m = sum_list (map (days_in_month y) [1..m - 1])"

definition toordinal :: "int \<Rightarrow> int \<Rightarrow> int \<Rightarrow> int" where
  "toordinal y m d = days_before_year y + days_before_month y m + d"

definition weekday :: "int \<Rightarrow> int \<Rightarrow> int \<Rightarrow> int" where
  \<comment> \<open>\<^verbatim>\<open>d.weekday()\<close>: Monday is 0\<close>
  "weekday y m d = (toordinal y m d + 6) mod 7"

text \<open>
  \<^verbatim>\<open>datetime.strptime\<close> turns each directive into a regular expression with ordered
  alternatives, matches the text from its start and then requires that nothing is left.
  Every directive of the three formats used here is followed by a character no
  alternative can read, or by the end of the format, so the first alternative that reads
  is the one the match keeps; the readers below try the alternatives in the library's
  order and return the number read with the unread text.
\<close>

definition dig :: "char \<Rightarrow> int \<Rightarrow> int \<Rightarrow> bool" where
  "dig c lo hi = (is_decimal c \<and> lo \<le> digit_val c \<and> digit_val c \<le> hi)"

definition two :: "char \<Rightarrow> char \<Rightarrow> int" where
  "two a b = 10 * digit_val a + digit_val b"

fun read_Y :: "string \<Rightarrow> (int \<times> string) option" where
  \<comment> \<open>\<^verbatim>\<open>%Y\<close>: four digits\<close>
  "read_Y (a # b # c # d # r) =
     (if is_decimal a \<and> is_decimal b \<and> is_decimal c \<and> is_decimal d
      then Some (1000 * digit_val a + 100 * digit_val b + 10 * digit_val c + digit_val d, r)
      else None)"
| "read_Y _ = None"

fun read_m :: "string \<Rightarrow> (int \<times> string) option" where
  \<comment> \<open>\<^verbatim>\<open>%m\<close>: \<^verbatim>\<open>1[0-2]|0[1-9]|[1-9]\<close>\<close>
  "read_m (a # b # r) =
     (if a = CHR ''1'' \<and> dig b 0 2 then Some (two a b, r)
      else if a = CHR ''0'' \<and> dig b 1 9 then Some (two a b, r)
      else if dig a 1 9 then Some (digit_val a, b # r)
      else None)"
| "read_m [a] = (if dig a 1 9 then Some (digit_val a, []) else None)"
| "read_m [] = None"

fun read_d :: "string \<Rightarrow> (int \<times> string) option" where
  \<comment> \<open>\<^verbatim>\<open>%d\<close>: \<^verbatim>\<open>3[0-1]|[1-2]\d|0[1-9]|[1-9]| [1-9]\<close>\<close>
  "read_d (a # b # r) =
     (if a = CHR ''3'' \<and> dig b 0 1 then Some (two a b, r)
      else if dig a 1 2 \<and> is_decimal b then Some (two a b, r)
      else if a = CHR ''0'' \<and> dig b 1 9 then Some (two a b, r)
      else if dig a 1 9 then Some (digit_val a, b # r)
      else if a = CHR '' '' \<and> dig b 1 9 then Some (digit_val b, r)
      else None)"
| "read_d [a] = (if dig a 1 9 then Some (digit_val a, []) else None)"
| "read_d [] = None"

fun read_H :: "string \<Rightarrow> (int \<times> string) option" where
  \<comment> \<open>\<^verbatim>\<open>%H\<close>: \<^verbatim>\<open>2[0-3]|[0-1]\d|\d\<close>\<close>
  "read_H (a # b # r) =
     (if a = CHR ''2'' \<and> dig b 0 3 then Some (two a b, r)
      else if dig a 0 1 \<and> is_decimal b then Some (two a b, r)
      else if is_decimal a then Some (digit_val a, b # r)
      else None)"
| "read_H [a] = (if is_decimal a then Some (digit_val a, []) else None)"
| "read_H [] = None"

fun read_M :: "string \<Rightarrow> (int \<times> string) option" where
  \<comment> \<open>\<^verbatim>\<open>%M\<close>: \<^verbatim>\<open>[0-5]\d|\d\<close>\<close>
  "read_M (a # b # r) =
     (if dig a 0 5 \<and> is_decimal b then Some (two a b, r)
      else if is_decimal a then Some (digit_val a, b # r)
      else None)"
| "read_M [a] = (if is_decimal a then Some (digit_val a, []) else None)"
| "read_M [] = None"

fun read_S :: "string \<Rightarrow> (int \<times> string) option" where
  \<comment> \<open>\<^verbatim>\<open>%S\<close>: \<^verbatim>\<open>6[0-1]|[0-5]\d|\d\<close>\<close>
  "read_S (a # b # r) =
     (if a = CHR ''6'' \<and> dig b 0 1 then Some (two a b, r)
      else if dig a 0 5 \<and> is_decimal b then Some (two a b, r)
      else if is_decimal a then Some (digit_val a, b # r)
      else None)"
| "read_S [a] = (if is_decimal a then Some (digit_val a, []) else None)"
| "read_S [] = None"

definition read_lit :: "char \<Rightarrow> string \<Rightarrow> string option" where
  "read_lit c s = (case s of [] \<Rightarrow> None | x # r \<Rightarrow> if x = c then Some r else None)"

definition read_ws :: "string \<Rightarrow> string option" where
  \<comment> \<open>a blank in a format is \<^verbatim>\<open>\s+\<close>: one or more white-space characters\<close>
  "read_ws s = (case s of [] \<Rightarrow> None
     | x # r \<Rightarrow> if isspace x then Some (dropWhile isspace r) else None)"

definition match_ymd :: "string \<Rightarrow> ((int \<times> int \<times> int) \<times> string) option" where
  \<comment> \<open>the pattern of \<^verbatim>\<open>%Y-%m-%d\<close>\<close>
  "match_ymd s =
     Option.bind (read_Y s) (\<lambda>(y, r1).
     Option.bind (read_lit CHR ''-'' r1) (\<lambda>r2.
     Option.bind (read_m r2) (\<lambda>(m, r3).
     Option.bind (read_lit CHR ''-'' r3) (\<lambda>r4.
     Option.bind (read_d r4) (\<lambda>(d, r5). Some ((y, m, d), r5))))))"

definition match_hm :: "string \<Rightarrow> ((int \<times> int) \<times> string) option" where
  \<comment> \<open>the pattern of \<^verbatim>\<open>%H:%M\<close>\<close>
  "match_hm s =
     Option.bind (read_H s) (\<lambda>(h, r1).
     Option.bind (read_lit CHR '':'' r1) (\<lambda>r2.
     Option.bind (read_M r2) (\<lambda>(m, r3). Some ((h, m), r3))))"

definition match_hms :: "string \<Rightarrow> ((int \<times> int \<times> int) \<times> string) option" where
  \<comment> \<open>the pattern of \<^verbatim>\<open>%H:%M:%S\<close>\<close>
  "match_hms s =
     Option.bind (match_hm s) (\<lambda>((h, m), r1).
     Option.bind (read_lit CHR '':'' r1) (\<lambda>r2.
     Option.bind (read_S r2) (\<lambda>(sec, r3). Some ((h, m, sec), r3))))"

definition match_full :: "string \<Rightarrow> (((int \<times> int \<times> int) \<times> (int \<times> int \<times> int)) \<times> string) option" where
  \<comment> \<open>the pattern of \<^verbatim>\<open>%Y-%m-%d %H:%M:%S\<close>\<close>
  "match_full s =
     Option.bind (match_ymd s) (\<lambda>(ymd, r1).
     Option.bind (read_ws r1) (\<lambda>r2.
     Option.bind (match_hms r2) (\<lambda>(hms, r3). Some ((ymd, hms), r3))))"

definition matched :: "string \<Rightarrow> string \<Rightarrow> ('a \<times> string) option \<Rightarrow> py_error + 'a" where
  \<comment> \<open>the two failures of \<^verbatim>\<open>strptime\<close> before any value is built\<close>
  "matched fmt s res = (case res of
       None \<Rightarrow> Inl (ValueError (Format_mismatch s fmt))
     | Some (v, r) \<Rightarrow> if r = [] then Inr v else Inl (ValueError (Unconverted_data r)))"

definition strptime_date :: "string \<Rightarrow> py_error + date" where
  \<comment> \<open>\<^verbatim>\<open>datetime.strptime(s, "%Y-%m-%d").date()\<close>\<close>
  "strptime_date s = then_e (matched ''%Y-%m-%d'' s (match_ymd s)) (\<lambda>(y, m, d).
     if valid_date y m d then Inr \<lparr>year = y, month = m, day = d\<rparr>
     else Inl (ValueError Out_of_range))"

definition strptime_time :: "string \<Rightarrow> py_error + time_of_day" where
  \<comment> \<open>\<^verbatim>\<open>datetime.strptime(s, "%H:%M").time()\<close>\<close>
  "strptime_time s = then_e (matched ''%H:%M'' s (match_hm s)) (\<lambda>(h, m).
     Inr \<lparr>hour = h, minute = m, second = 0\<rparr>)"

definition strptime_datetime :: "string \<Rightarrow> py_error + datetime" where
  \<comment> \<open>\<^verbatim>\<open>datetime.strptime(s, "%Y-%m-%d %H:%M:%S")\<close>; the pattern lets a second be 60 or
      61, the constructor does not\<close>
  "strptime_datetime s =
     then_e (matched ''%Y-%m-%d %H:%M:%S'' s (match_full s)) (\<lambda>((y, m, d), (h, mi, sec)).
       if valid_date y m d \<and> sec \<le> 59
       then Inr \<lparr>year = y, month = m, day = d, dt_hour = h, dt_minute = mi, dt_second = sec\<rparr>
       else Inl (ValueError Out_of_range))"

definition strftime_Ymd :: "'a date_scheme \<Rightarrow> string" where
  \<comment> \<open>\<^verbatim>\<open>d.strftime("%Y-%m-%d")\<close>, the year on four digits as documented\<close>
  "strftime_Ymd d = zero_pad 4 (year d) @ ''-'' @ zero_pad 2 (month d) @ ''-'' @ zero_pad 2 (day d)"

definition strftime_dmY :: "'a date_scheme \<Rightarrow> string" where
  \<comment> \<open>\<^verbatim>\<open>d.strftime("%d.%m.%Y")\<close>\<close>
  "strftime_dmY d = zero_pad 2 (day d) @ ''.'' @ zero_pad 2 (month d) @ ''.'' @ zero_pad 4 (year d)"

definition strftime_HM :: "time_of_day \<Rightarrow> string" where
  \<comment> \<open>\<^verbatim>\<open>t.strftime("%H:%M")\<close>\<close>
  "strftime_HM t = zero_pad 2 (hour t) @ '':'' @ zero_pad 2 (minute t)"

definition strftime_full :: "datetime \<Rightarrow> string" where
  \<comment> \<open>\<^verbatim>\<open>dt.strftime("%Y-%m-%d %H:%M:%S")\<close>\<close>
  "strftime_full dt = strftime_Ymd dt @ '' '' @ zero_pad 2 (dt_hour dt) @ '':'' @
     zero_pad 2 (dt_minute dt) @ '':'' @ zero_pad 2 (dt_second dt)"

subsection \<open>Floating-point numbers\<close>

text \<open>
  A Python \<^verbatim>\<open>float\<close> is an IEEE 754 binary64 number. A finite one is kept as the rational
  it denotes, so equal numbers are equal terms; the negative zero, the infinities and the
  not-a-number are constructors of their own. Every operation computes the exact rational
  result and rounds it once, to nearest with ties to even, on 53 bits above the exponent
  \<open>-1074\<close> of the smallest subnormal.
\<close>

datatype pyfloat = Fin rat | NegZero | PosInf | NegInf | NaN

function bitlen :: "int \<Rightarrow> int" where
  \<comment> \<open>the number of binary digits of a positive integer\<close>
  "bitlen n = (if n \<le> 0 then 0 else 1 + bitlen (n div 2))"
  by pat_completeness auto
termination
  by (relation "measure nat") auto

declare bitlen.simps [simp del]

definition pow2 :: "int \<Rightarrow> rat" where
  "pow2 e = (if 0 \<le> e then 2 ^ nat e else 1 / 2 ^ nat (- e))"

definition ilog2 :: "rat \<Rightarrow> int" where
  \<comment> \<open>for \<open>0 < q\<close>, the \<open>k\<close> with \<open>2 ^ k \<le> q < 2 ^ (k + 1)\<close>\<close>
  "ilog2 q = (if 1 \<le> q then bitlen \<lfloor>q\<rfloor> - 1 else - bitlen (\<lceil>1 / q\<rceil> - 1))"

definition round_even :: "rat \<Rightarrow> int" where
  \<comment> \<open>the nearest integer, a tie going to the even one\<close>
  "round_even q = (let f = \<lfloor>q\<rfloor>; r = q - of_int f in
     if r < 1 / 2 then f else if 1 / 2 < r then f + 1 else if even f then f else f + 1)"

definition round_mag :: "rat \<Rightarrow> rat" where
  \<comment> \<open>a positive rational rounded onto the grid of its binade\<close>
  "round_mag a = (let e = max (ilog2 a - 52) (- 1074) in of_int (round_even (a / pow2 e)) * pow2 e)"

definition rnd :: "rat \<Rightarrow> pyfloat" where
  "rnd q = (if q = 0 then Fin 0
     else let v = round_mag \<bar>q\<bar> in
       if pow2 1024 \<le> v then (if 0 < q then PosInf else NegInf)
       else if v = 0 then (if 0 < q then Fin 0 else NegZero)
       else Fin (if 0 < q then v else - v))"

definition is_neg :: "pyfloat \<Rightarrow> bool" where
  \<comment> \<open>the sign bit of a number that is not a NaN\<close>
  "is_neg x = (case x of Fin q \<Rightarrow> q < 0 | NegZero \<Rightarrow> True | NegInf \<Rightarrow> True | _ \<Rightarrow> False)"

definition is_zero :: "pyfloat \<Rightarrow> bool" where
  "is_zero x = (x = Fin 0 \<or> x = NegZero)"

definition is_inf :: "pyfloat \<Rightarrow> bool" where
  "is_inf x = (x = PosInf \<or> x = NegInf)"

definition signed_zero :: "bool \<Rightarrow> pyfloat" where
  "signed_zero neg = (if neg then NegZero else Fin 0)"

definition signed_inf :: "bool \<Rightarrow> pyfloat" where
  "signed_inf neg = (if neg then NegInf else PosInf)"

definition fadd :: "pyfloat \<Rightarrow> pyfloat \<Rightarrow> pyfloat" where
  \<comment> \<open>\<^verbatim>\<open>x + y\<close> on floats; an exact zero sum of opposite numbers is the positive zero\<close>
  "fadd x y =
     (if x = NaN \<or> y = NaN then NaN
      else if is_inf x then (if is_inf y \<and> x \<noteq> y then NaN else x)
      else if is_inf y then y
      else if x = NegZero then y
      else if y = NegZero then x
      else (case (x, y) of (Fin a, Fin b) \<Rightarrow> rnd (a + b) | _ \<Rightarrow> NaN))"

definition fmul :: "pyfloat \<Rightarrow> pyfloat \<Rightarrow> pyfloat" where
  \<comment> \<open>\<^verbatim>\<open>x * y\<close> on floats\<close>
  "fmul x y =
     (if x = NaN \<or> y = NaN then NaN
      else if (is_inf x \<and> is_zero y) \<or> (is_zero x \<and> is_inf y) then NaN
      else if is_inf x \<or> is_inf y then signed_inf (is_neg x \<noteq> is_neg y)
      else if is_zero x \<or> is_zero y then signed_zero (is_neg x \<noteq> is_neg y)
      else (case (x, y) of (Fin a, Fin b) \<Rightarrow> rnd (a * b) | _ \<Rightarrow> NaN))"

definition fdiv :: "pyfloat \<Rightarrow> pyfloat \<Rightarrow> pyfloat" where
  \<comment> \<open>\<^verbatim>\<open>x / y\<close> on floats for a divisor that is not zero (Python raises on a zero one)\<close>
  "fdiv x y =
     (if x = NaN \<or> y = NaN then NaN
      else if is_inf x then (if is_inf y then NaN else signed_inf (is_neg x \<noteq> is_neg y))
      else if is_inf y \<or> is_zero x then signed_zero (is_neg x \<noteq> is_neg y)
      else (case (x, y) of (Fin a, Fin b) \<Rightarrow> rnd (a / b) | _ \<Rightarrow> NaN))"

definition float_of_int :: "int \<Rightarrow> py_error + pyfloat" where
  \<comment> \<open>the conversion of an \<^verbatim>\<open>int\<close> operand in mixed arithmetic: rounded, and an
      \<^verbatim>\<open>OverflowError\<close> where a float operation would give an infinity\<close>
  "float_of_int n = (let x = rnd (of_int n) in if is_inf x then Inl OverflowError else Inr x)"

definition fits_float :: "int \<Rightarrow> bool" where
  \<comment> \<open>the integers that convert to a float without an \<^verbatim>\<open>OverflowError\<close>\<close>
  "fits_float n = (\<not> is_inf (rnd (of_int n)))"

definition format_2f :: "pyfloat \<Rightarrow> string" where
  \<comment> \<open>the format specification \<^verbatim>\<open>.2f\<close>: the exact value rounded to hundredths, ties to even\<close>
  "format_2f x = (case x of
       NaN \<Rightarrow> ''nan''
     | PosInf \<Rightarrow> ''inf''
     | NegInf \<Rightarrow> ''-inf''
     | NegZero \<Rightarrow> ''-0.00''
     | Fin q \<Rightarrow>
         (let n = round_even (\<bar>q\<bar> * 100) in
            (if q < 0 then ''-'' else []) @ dec_digits (n div 100) @ ''.'' @ zero_pad 2 (n mod 100)))"

definition pow10 :: "int \<Rightarrow> rat" where
  "pow10 e = (if 0 \<le> e then 10 ^ nat e else 1 / 10 ^ nat (- e))"

definition digits_val :: "string \<Rightarrow> int" where
  "digits_val s = foldl (\<lambda>a c. 10 * a + digit_val c) 0 s"

definition lower :: "char \<Rightarrow> char" where
  "lower c = (if CHR ''A'' \<le> c \<and> c \<le> CHR ''Z'' then char_of (of_char c + (32 :: int)) else c)"

fun underscores_ok :: "char \<Rightarrow> string \<Rightarrow> bool" where
  \<comment> \<open>\<^verbatim>\<open>float()\<close> drops underscores first: each must stand between two digits; the first
      argument is the character before\<close>
  "underscores_ok prev [] = (prev \<noteq> CHR ''_'')"
| "underscores_ok prev (c # cs) =
     (if c = CHR ''_'' then is_decimal prev \<and> underscores_ok c cs
      else (prev = CHR ''_'' \<longrightarrow> is_decimal c) \<and> underscores_ok c cs)"

definition exponent_part :: "string \<Rightarrow> int option" where
  \<comment> \<open>nothing, or \<^verbatim>\<open>e\<close> or \<^verbatim>\<open>E\<close>, an optional sign and digits, up to the end\<close>
  "exponent_part s = (case s of [] \<Rightarrow> Some 0
     | c # cs \<Rightarrow>
         if c = CHR ''e'' \<or> c = CHR ''E'' then
           (let (neg, ds) = (case cs of [] \<Rightarrow> (False, [])
                  | x # xs \<Rightarrow> if x = CHR ''-'' then (True, xs)
                             else if x = CHR ''+'' then (False, xs) else (False, cs))
            in if ds \<noteq> [] \<and> list_all is_decimal ds
               then Some (if neg then - digits_val ds else digits_val ds) else None)
         else None)"

definition float_literal :: "string \<Rightarrow> pyfloat option" where
  \<comment> \<open>a sign, then \<^verbatim>\<open>inf\<close>, \<^verbatim>\<open>infinity\<close> or \<^verbatim>\<open>nan\<close> in any case, or digits with an
      optional point and exponent; the decimal value is rounded once\<close>
  "float_literal s =
     (let (neg, r) = (case s of [] \<Rightarrow> (False, [])
            | c # cs \<Rightarrow> if c = CHR ''-'' then (True, cs)
                       else if c = CHR ''+'' then (False, cs) else (False, s));
          l = map lower r
      in if l = ''inf'' \<or> l = ''infinity'' then Some (signed_inf neg)
         else if l = ''nan'' then Some NaN
         else
           (let ip = takeWhile is_decimal r; r1 = dropWhile is_decimal r;
                (fp, r2) = (case r1 of [] \<Rightarrow> ([], [])
                   | c # cs \<Rightarrow> if c = CHR ''.''
                       then (takeWhile is_decimal cs, dropWhile is_decimal cs) else ([], r1))
            in if ip = [] \<and> fp = [] then None
               else (case exponent_part r2 of None \<Rightarrow> None
                 | Some ex \<Rightarrow>
                     (let m = digits_val (ip @ fp);
                          q = of_int m * pow10 (ex - int (length fp))
                      in Some (if m = 0 then signed_zero neg
                               else rnd (if neg then - q else q))))))"

definition py_float :: "string \<Rightarrow> py_error + pyfloat" where
  \<comment> \<open>\<^verbatim>\<open>float(s)\<close> on a string\<close>
  "py_float s =
     (if \<not> underscores_ok CHR '' '' s then Inl (ValueError (Not_a_float s))
      else (case float_literal (strip_by num_space (filter (\<lambda>c. c \<noteq> CHR ''_'') s)) of
              None \<Rightarrow> Inl (ValueError (Not_a_float s))
            | Some x \<Rightarrow> Inr x))"

section \<open>The reservation report (TaskC)\<close>

text \<open>
  \<^verbatim>\<open>convert_reservation_data\<close> returns a list of eleven values of different types, which the
  report functions read by position; the record names the positions 0 to 10 as the
  module's \<^verbatim>\<open>HEADERS\<close> does.
\<close>

record reservation =
  reservationId :: int
  name :: string
  email :: string
  phone :: string
  reservationDate :: date
  reservationTime :: time_of_day
  durationHours :: int
  price :: pyfloat
  confirmed :: bool
  reservedResource :: string
  createdAt :: datetime

definition decode_fields :: "string list \<Rightarrow> py_error + reservation" where
  \<comment> \<open>lines 53 to 66 of \<^verbatim>\<open>task_c.py\<close>: the eleven \<^verbatim>\<open>append\<close>s, in their order, each
      reading its field and raising as the field's conversion does\<close>
  "decode_fields reservation =
     then_e (nth_e reservation 0) (\<lambda>f0. then_e (py_int f0) (\<lambda>c0.
     then_e (nth_e reservation 1) (\<lambda>c1.
     then_e (nth_e reservation 2) (\<lambda>c2.
     then_e (nth_e reservation 3) (\<lambda>c3.
     then_e (nth_e reservation 4) (\<lambda>f4. then_e (strptime_date f4) (\<lambda>c4.
     then_e (nth_e reservation 5) (\<lambda>f5. then_e (strptime_time f5) (\<lambda>c5.
     then_e (nth_e reservation 6) (\<lambda>f6. then_e (py_int f6) (\<lambda>c6.
     then_e (nth_e reservation 7) (\<lambda>f7. then_e (py_float f7) (\<lambda>c7.
     then_e (nth_e reservation 8) (\<lambda>f8.
     then_e (nth_e reservation 9) (\<lambda>c9.
     then_e (nth_e reservation 10) (\<lambda>f10. then_e (strptime_datetime f10) (\<lambda>c10.
       Inr \<lparr>reservationId = c0, name = c1, email = c2, phone = c3, reservationDate = c4,
            reservationTime = c5, durationHours = c6, price = c7,
            confirmed = (f8 = ''True''), reservedResource = c9,
            createdAt = c10\<rparr>)))))))))))))))))"

definition convert_reservation_data :: "string list \<Rightarrow> string list \<times> (py_error + reservation)" where
  \<comment> \<open>The argument list is mutated (line 51), so the function returns the caller's list
      as it is after the call, next to the result or the exception. On an empty list
      \<^verbatim>\<open>reservation[-1]\<close> raises before anything is written.\<close>
  "convert_reservation_data reservation =
     (if reservation = [] then (reservation, Inl IndexError)
      else (let reservation' = reservation[length reservation - 1 := strip (last reservation)]
            in (reservation', decode_fields reservation')))"



subsection \<open>Total revenue\<close>

text \<open>
  The built-in \<^verbatim>\<open>sum\<close> starts from the integer 0. The first float it meets is added to that
  start, and from there the interpreter adds floats left to right; since Python 3.12 it
  also carries a compensation term (Neumaier's variant of Kahan's summation) that is added
  at the end. Both algorithms are given, and \<open>total_revenue\<close> takes the one in use as its
  first argument.
\<close>

definition sum_plain :: "pyfloat list \<Rightarrow> pyfloat" where
  "sum_plain xs = foldl fadd (Fin 0) xs"

definition fabs :: "pyfloat \<Rightarrow> rat" where
  \<comment> \<open>the magnitude of a finite float\<close>
  "fabs x = (case x of Fin q \<Rightarrow> \<bar>q\<bar> | _ \<Rightarrow> 0)"

definition fsub :: "pyfloat \<Rightarrow> pyfloat \<Rightarrow> pyfloat" where
  \<comment> \<open>\<^verbatim>\<open>x - y\<close> on floats: the sum with the negated \<open>y\<close>\<close>
  "fsub x y = fadd x (case y of Fin q \<Rightarrow> (if q = 0 then NegZero else Fin (- q))
                       | NegZero \<Rightarrow> Fin 0 | PosInf \<Rightarrow> NegInf | NegInf \<Rightarrow> PosInf | NaN \<Rightarrow> NaN)"

definition is_finite :: "pyfloat \<Rightarrow> bool" where
  "is_finite x = (case x of Fin q \<Rightarrow> True | NegZero \<Rightarrow> True | _ \<Rightarrow> False)"

definition ge_abs :: "pyfloat \<Rightarrow> pyfloat \<Rightarrow> bool" where
  \<comment> \<open>\<^verbatim>\<open>fabs(x) >= fabs(y)\<close>: false as soon as one side is a NaN\<close>
  "ge_abs x y = (x \<noteq> NaN \<and> y \<noteq> NaN \<and> (is_inf x \<or> (\<not> is_inf y \<and> fabs y \<le> fabs x)))"

fun neumaier :: "pyfloat \<Rightarrow> pyfloat \<Rightarrow> pyfloat list \<Rightarrow> pyfloat" where
  \<comment> \<open>the loop of the compensated sum: running total, compensation, items left\<close>
  "neumaier f c [] = (if \<not> is_zero c \<and> is_finite c then fadd f c else f)"
| "neumaier f c (x # xs) =
     (let t = fadd f x;
          c' = (if ge_abs f x then fadd c (fadd (fsub f t) x) else fadd c (fadd (fsub x t) f))
      in neumaier t c' xs)"

definition sum_compensated :: "pyfloat list \<Rightarrow> pyfloat" where
  "sum_compensated xs = (case xs of [] \<Rightarrow> Fin 0 | x # r \<Rightarrow> neumaier (fadd (Fin 0) x) (Fin 0) r)"

definition euro_sign :: string where
  \<comment> \<open>U+20AC lies outside the characters of the model; it is kept as the three bytes of
      its UTF-8 encoding, which no function looks into\<close>
  "euro_sign = [CHR 0xE2, CHR 0x82, CHR 0xAC]"

fun revenue_terms :: "reservation list \<Rightarrow> py_error + pyfloat list" where
  \<comment> \<open>the generator \<^verbatim>\<open>r[7] * r[6] for r in reservations if r[8]\<close>: float times int, the
      int converted first\<close>
  "revenue_terms [] = Inr []"
| "revenue_terms (r # rs) =
     (if confirmed r
      then then_e (float_of_int (durationHours r)) (\<lambda>h.
           then_e (revenue_terms rs) (\<lambda>ts. Inr (fmul (price r) h # ts)))
      else revenue_terms rs)"

definition amount_str :: "pyfloat \<Rightarrow> string" where
  \<comment> \<open>\<^verbatim>\<open>f"{total:.2f}".replace(".", ",")\<close>\<close>
  "amount_str v = replace_char CHR ''.'' CHR '','' (format_2f v)"

definition total_revenue :: "(pyfloat list \<Rightarrow> pyfloat) \<Rightarrow> reservation list \<Rightarrow> py_error + string" where
  \<comment> \<open>the line that \<^verbatim>\<open>total_revenue\<close> prints\<close>
  "total_revenue float_sum reservations =
     then_e (revenue_terms reservations) (\<lambda>ts.
       Inr (''Total revenue from confirmed reservations: '' @ amount_str (float_sum ts) @
            '' '' @ euro_sign))"

subsection \<open>What a line's columns raise\<close>



subsection \<open>The terms of the revenue\<close>

definition revenue_term :: "reservation \<Rightarrow> pyfloat" where
  \<comment> \<open>\<^verbatim>\<open>r[7] * r[6]\<close> for a duration that fits\<close>
  "revenue_term r = fmul (price r) (rnd (of_int (durationHours r)))"

section \<open>The electricity reports (TaskD and TaskE)\<close>

text \<open>
  \<^verbatim>\<open>read_data\<close>, \<^verbatim>\<open>compute_daily_totals\<close> and \<^verbatim>\<open>format_kwh\<close> are the same text in both files; the
  table is printed by \<^verbatim>\<open>print_table\<close> in TaskD and returned by \<^verbatim>\<open>generate_table_text\<close> in
  TaskE.
\<close>

subsection \<open>Reading the rows\<close>

record meter_row =
  timestamp :: datetime
  row_date :: date
  consumption :: "int list"
  production :: "int list"

definition row_dict :: "string list \<Rightarrow> string list \<Rightarrow> (string \<rightharpoonup> string option)" where
  \<comment> \<open>the dictionary \<^verbatim>\<open>csv.DictReader\<close> builds for one row: \<^verbatim>\<open>dict(zip(fieldnames, row))\<close>, a
      later column of the same name winning, and \<^verbatim>\<open>None\<close> under the names a short row does
      not reach; what a long row has beyond the header goes under a key that is not a string\<close>
  "row_dict fieldnames row =
     map_of (rev (zip fieldnames (map Some row @ replicate (length fieldnames - length row) None)))"

definition getitem :: "(string \<rightharpoonup> string option) \<Rightarrow> string \<Rightarrow> py_error + string option" where
  \<comment> \<open>\<^verbatim>\<open>row[key]\<close>\<close>
  "getitem row key = (case row key of None \<Rightarrow> Inl (KeyError key) | Some v \<Rightarrow> Inr v)"

definition on_str :: "(string \<Rightarrow> py_error + 'a) \<Rightarrow> string option \<Rightarrow> py_error + 'a" where
  \<comment> \<open>\<^verbatim>\<open>int\<close> and \<^verbatim>\<open>fromisoformat\<close> raise \<^verbatim>\<open>TypeError\<close> on \<^verbatim>\<open>None\<close>\<close>
  "on_str f v = (case v of None \<Rightarrow> Inl TypeError | Some s \<Rightarrow> f s)"

definition phase_key :: "string \<Rightarrow> nat \<Rightarrow> string" where
  \<comment> \<open>\<^verbatim>\<open>f"Consumption phase {i+1} Wh"\<close> and its production twin\<close>
  "phase_key kind i = kind @ '' phase '' @ str_int (int i + 1) @ '' Wh''"

fun read_phases :: "(string \<rightharpoonup> string option) \<Rightarrow> string \<Rightarrow> nat list \<Rightarrow> py_error + int list" where
  \<comment> \<open>the list comprehension over \<^verbatim>\<open>range(3)\<close>\<close>
  "read_phases row kind [] = Inr []"
| "read_phases row kind (i # is) =
     then_e (getitem row (phase_key kind i)) (\<lambda>v. then_e (on_str py_int v) (\<lambda>n.
     then_e (read_phases row kind is) (\<lambda>ns. Inr (n # ns))))"

definition decode_row :: "(string \<Rightarrow> py_error + datetime) \<Rightarrow> (string \<rightharpoonup> string option)
    \<Rightarrow> py_error + meter_row" where
  \<comment> \<open>the body of the loop of \<^verbatim>\<open>read_data\<close>\<close>
  "decode_row fromisoformat row =
     then_e (getitem row ''Time'') (\<lambda>v. then_e (on_str fromisoformat v) (\<lambda>ts.
     then_e (read_phases row ''Consumption'' [0, 1, 2]) (\<lambda>cs.
     then_e (read_phases row ''Production'' [0, 1, 2]) (\<lambda>ps.
       Inr \<lparr>timestamp = ts, row_date = date.truncate ts, consumption = cs, production = ps\<rparr>))))"

fun read_rows :: "(string \<Rightarrow> py_error + datetime) \<Rightarrow> string list \<Rightarrow> meter_row list
    \<Rightarrow> string list list \<Rightarrow> py_error + meter_row list" where
  \<comment> \<open>\<^verbatim>\<open>for row in reader\<close>: the reader passes over empty rows\<close>
  "read_rows fromisoformat fieldnames rows [] = Inr rows"
| "read_rows fromisoformat fieldnames rows (r # rest) =
     (if r = [] then read_rows fromisoformat fieldnames rows rest
      else then_e (decode_row fromisoformat (row_dict fieldnames r))
             (\<lambda>m. read_rows fromisoformat fieldnames (rows @ [m]) rest))"

definition read_data :: "(string \<Rightarrow> py_error + datetime) \<Rightarrow> string list list
    \<Rightarrow> py_error + meter_row list" where
  \<comment> \<open>The second argument is the file as \<^verbatim>\<open>csv.reader\<close> with the delimiter \<^verbatim>\<open>;\<close> splits it:
      one list of fields per line, the first being the header. The first argument is
      \<^verbatim>\<open>datetime.fromisoformat\<close>, whose accepted texts differ between interpreter versions.\<close>
  "read_data fromisoformat csv_rows = (case csv_rows of [] \<Rightarrow> Inr []
     | fieldnames # data \<Rightarrow> read_rows fromisoformat fieldnames [] data)"

definition iso_seconds :: "string \<Rightarrow> py_error + datetime" where
  \<comment> \<open>\<^verbatim>\<open>fromisoformat\<close> on the texts \<^verbatim>\<open>YYYY-MM-DDTHH:MM:SS\<close> with two digits in each field
      after the year, which every version reads alike; other texts are refused here\<close>
  "iso_seconds s =
     (if length s = 19 \<and> s ! 10 = CHR ''T'' \<and> list_all is_decimal (map ((!) s) [5, 6, 8, 9, 11, 12, 14, 15, 17, 18])
      then (case strptime_datetime (s[10 := CHR '' '']) of
              Inr dt \<Rightarrow> Inr dt
            | Inl e \<Rightarrow> Inl (ValueError (Format_mismatch s ''iso'')))
      else Inl (ValueError (Format_mismatch s ''iso'')))"

subsection \<open>Daily totals\<close>

record totals =
  cons :: "pyfloat list"
  prod :: "pyfloat list"

text \<open>
  The dictionary of daily totals keeps its keys in the order of their first insertion;
  it is a list of pairs with distinct dates.
\<close>

type_synonym daily = "(date \<times> totals) list"

fun update_key :: "date \<Rightarrow> totals \<Rightarrow> daily \<Rightarrow> daily" where
  \<comment> \<open>storing under a key that is present: the position stays\<close>
  "update_key d t [] = []"
| "update_key d t ((k, v) # rest) = (if k = d then (k, t) else (k, v)) # update_key d t rest"

definition kwh :: "int \<Rightarrow> py_error + pyfloat" where
  \<comment> \<open>\<^verbatim>\<open>n / 1000.0\<close> for an integer \<^verbatim>\<open>n\<close>\<close>
  "kwh n = then_e (float_of_int n) (\<lambda>x. Inr (fdiv x (Fin 1000)))"

definition add_phase :: "meter_row \<Rightarrow> nat \<Rightarrow> totals \<Rightarrow> py_error + totals" where
  \<comment> \<open>the two augmented assignments of the inner loop, for phase \<open>i\<close>\<close>
  "add_phase entry i t =
     then_e (nth_e (cons t) i) (\<lambda>a.
     then_e (nth_e (consumption entry) i) (\<lambda>c. then_e (kwh c) (\<lambda>ck.
     then_e (nth_e (prod t) i) (\<lambda>b.
     then_e (nth_e (production entry) i) (\<lambda>p. then_e (kwh p) (\<lambda>pk.
       Inr (t\<lparr>cons := (cons t)[i := fadd a ck], prod := (prod t)[i := fadd b pk]\<rparr>)))))))"

definition add_entry :: "meter_row \<Rightarrow> totals \<Rightarrow> py_error + totals" where
  \<comment> \<open>\<^verbatim>\<open>for i in range(3)\<close>\<close>
  "add_entry entry t =
     then_e (add_phase entry 0 t) (\<lambda>t0. then_e (add_phase entry 1 t0) (add_phase entry 2))"

definition zero_totals :: totals where
  "zero_totals = \<lparr>cons = [Fin 0, Fin 0, Fin 0], prod = [Fin 0, Fin 0, Fin 0]\<rparr>"

fun fold_rows :: "daily \<Rightarrow> meter_row list \<Rightarrow> py_error + daily" where
  \<comment> \<open>\<^verbatim>\<open>for entry in rows\<close>\<close>
  "fold_rows daily [] = Inr daily"
| "fold_rows daily (entry # rows) =
     (let d = row_date entry;
          daily' = (if d \<in> set (map fst daily) then daily else daily @ [(d, zero_totals)])
      in case map_of daily' d of
           None \<Rightarrow> Inl (KeyError [])  \<comment> \<open>never: the key has just been put there\<close>
         | Some t \<Rightarrow> then_e (add_entry entry t) (\<lambda>t'. fold_rows (update_key d t' daily') rows))"

definition compute_daily_totals :: "meter_row list \<Rightarrow> py_error + daily" where
  "compute_daily_totals rows = fold_rows [] rows"

definition format_kwh :: "pyfloat \<Rightarrow> string" where
  "format_kwh v = replace_char CHR ''.'' CHR '','' (format_2f v)"

subsection \<open>The weekly table\<close>

definition days :: "string list" where
  "days = [''Monday'', ''Tuesday'', ''Wednesday'', ''Thursday'', ''Friday'', ''Saturday'', ''Sunday'']"

definition date_key :: "date \<Rightarrow> int \<times> int \<times> int" where
  \<comment> \<open>dates compare as their year, month and day do, in that order\<close>
  "date_key d = (year d, month d, day d)"

definition sorted_dates :: "daily \<Rightarrow> date list" where
  \<comment> \<open>\<^verbatim>\<open>sorted(daily.keys())\<close>\<close>
  "sorted_dates daily = sort_key date_key (map fst daily)"

definition table_row :: "date \<Rightarrow> totals \<Rightarrow> string" where
  \<comment> \<open>\<^verbatim>\<open>f"{day_name:<12} {date_str:<11} {cons_str:<27} {prod_str}"\<close>\<close>
  "table_row d t =
     (let day_name = days ! nat (weekday (year d) (month d) (day d));
          date_str = strftime_dmY d;
          cons_str = join '' | '' (map format_kwh (cons t));
          prod_str = join '' | '' (map format_kwh (prod t))
      in ljust 12 day_name @ '' '' @ ljust 11 date_str @ '' '' @ ljust 27 cons_str @ '' '' @ prod_str)"

fun table_rows :: "daily \<Rightarrow> date list \<Rightarrow> py_error + string list" where
  \<comment> \<open>the loop over the sorted dates, \<^verbatim>\<open>daily[d]\<close> looked up for each\<close>
  "table_rows daily [] = Inr []"
| "table_rows daily (d # ds) = (case map_of daily d of
       None \<Rightarrow> Inl (KeyError [])
     | Some t \<Rightarrow> then_e (table_rows daily ds) (\<lambda>rs. Inr (table_row d t # rs)))"

definition header_lines :: "string list" where
  "header_lines =
     [''Day          Date        Consumption (kWh)      Production (kWh)'',
      ''           (dd.mm.yyyy)  v1    | v2   | v3           v1   |  v2  | v3'',
      replicate 70 CHR ''-'']"

definition title_line :: "int \<Rightarrow> string" where
  \<comment> \<open>\<^verbatim>\<open>f"Week {week_number} - Electricity Report (kWh)\n"\<close>\<close>
  "title_line week_number =
     ''Week '' @ str_int week_number @ '' - Electricity Report (kWh)'' @ [CHR 0x0A]"

definition generate_table_text :: "int \<Rightarrow> daily \<Rightarrow> py_error + string" where
  \<comment> \<open>TaskE: the list \<^verbatim>\<open>lines\<close> joined by newlines\<close>
  "generate_table_text week_number daily =
     then_e (table_rows daily (sorted_dates daily)) (\<lambda>rs.
       Inr (join [CHR 0x0A] (title_line week_number # header_lines @ rs @ [[CHR 0x0A]])))"


subsection \<open>The batch driver (TaskE)\<close>

definition matches_week_csv :: "string \<Rightarrow> bool" where
  \<comment> \<open>the pattern \<^verbatim>\<open>week*.csv\<close>\<close>
  "matches_week_csv fname = (8 \<le> length fname \<and> take 4 fname = ''week'' \<and>
     drop (length fname - 4) fname = ''.csv'')"

definition stem :: "string \<Rightarrow> string" where
  \<comment> \<open>\<^verbatim>\<open>Path.stem\<close> of a file name: the name up to its last dot, when that dot is neither
      the first nor the last character\<close>
  "stem fname = (let after = takeWhile (\<lambda>c. c \<noteq> CHR ''.'') (rev fname)
     in if length after < length fname \<and> after \<noteq> [] \<and> length after + 1 < length fname
        then take (length fname - length after - 1) fname else fname)"

definition str_isdigit :: "string \<Rightarrow> bool" where
  \<comment> \<open>\<^verbatim>\<open>s.isdigit()\<close>: not empty and every character a digit\<close>
  "str_isdigit s = (s \<noteq> [] \<and> list_all isdigit s)"

definition week_number_of :: "string \<Rightarrow> py_error + int" where
  \<comment> \<open>lines 98 and 99 of \<^verbatim>\<open>task_e.py\<close>\<close>
  "week_number_of fname =
     (let week_digits = filter isdigit (stem fname)
      in if str_isdigit week_digits then py_int week_digits else Inr 0)"

definition week_text :: "(string \<Rightarrow> py_error + datetime) \<Rightarrow> (string \<Rightarrow> string list list)
    \<Rightarrow> string \<Rightarrow> py_error + string" where
  \<comment> \<open>the body of the loop of \<^verbatim>\<open>main\<close> for one path; \<open>content\<close> gives the rows of the file
      of that name\<close>
  "week_text fromisoformat content fname =
     then_e (week_number_of fname) (\<lambda>week_number.
     then_e (read_data fromisoformat (content fname)) (\<lambda>rows.
     then_e (compute_daily_totals rows) (\<lambda>daily_totals.
       generate_table_text week_number daily_totals)))"

fun all_texts :: "(string \<Rightarrow> py_error + datetime) \<Rightarrow> (string \<Rightarrow> string list list)
    \<Rightarrow> string list \<Rightarrow> py_error + string list" where
  \<comment> \<open>\<^verbatim>\<open>for csv_path in csv_files\<close>\<close>
  "all_texts fromisoformat content [] = Inr []"
| "all_texts fromisoformat content (p # ps) =
     then_e (week_text fromisoformat content p) (\<lambda>t.
     then_e (all_texts fromisoformat content ps) (\<lambda>ts. Inr (t # ts)))"

definition csv_files :: "string list \<Rightarrow> string list" where
  \<comment> \<open>\<^verbatim>\<open>sorted(Path(".").glob("week*.csv"))\<close> from the names in the directory: paths of one
      component compare as their names, character by character\<close>
  "csv_files names = sort (filter matches_week_csv names)"

definition main :: "(string \<Rightarrow> py_error + datetime) \<Rightarrow> string list \<Rightarrow> (string \<Rightarrow> string list list)
    \<Rightarrow> py_error + string" where
  \<comment> \<open>the text written to \<^verbatim>\<open>summary.txt\<close>, from the names in the directory and the content
      of its files; an exception leaves \<^verbatim>\<open>main\<close> before the file is opened\<close>
  "main fromisoformat names content =
     then_e (all_texts fromisoformat content (csv_files names)) (\<lambda>all_text.
       Inr (join [CHR 0x0A] all_text))"

subsection \<open>The columns the reader asks for\<close>

definition expected_headers :: "string list" where
  "expected_headers = ''Time'' # map (phase_key ''Consumption'') [0, 1, 2] @
     map (phase_key ''Production'') [0, 1, 2]"

subsection \<open>What the aggregation is compared with\<close>

definition kwh_of :: "int \<Rightarrow> pyfloat" where
  \<comment> \<open>the float that \<^verbatim>\<open>n / 1000.0\<close> gives for an \<^verbatim>\<open>n\<close> that fits a float\<close>
  "kwh_of n = fdiv (rnd (of_int n)) (Fin 1000)"

definition row_ok :: "meter_row \<Rightarrow> bool" where
  \<comment> \<open>a row with three readings that fit a float on each side, as \<^verbatim>\<open>read_data\<close> builds them
      from integers that are not astronomically large\<close>
  "row_ok r = (\<forall>i<3. i < length (consumption r) \<and> i < length (production r) \<and>
     fits_float (consumption r ! i) \<and> fits_float (production r ! i))"

definition entry_of :: "daily \<Rightarrow> date \<Rightarrow> totals" where
  \<comment> \<open>the totals stored for a date, the zero totals for a date that is not a key\<close>
  "entry_of daily d = (case map_of daily d of None \<Rightarrow> zero_totals | Some t \<Rightarrow> t)"

definition well_formed :: "daily \<Rightarrow> bool" where
  \<comment> \<open>a dictionary: no key twice; and three totals on each side under every key\<close>
  "well_formed daily = (distinct (map fst daily) \<and>
     (\<forall>(d, t)\<in>set daily. length (cons t) = 3 \<and> length (prod t) = 3))"

definition on_date :: "date \<Rightarrow> meter_row list \<Rightarrow> meter_row list" where
  \<comment> \<open>the rows of one date, in their order\<close>
  "on_date d rows = filter (\<lambda>r. row_date r = d) rows"

definition float_sum_from :: "pyfloat \<Rightarrow> pyfloat list \<Rightarrow> pyfloat" where
  \<comment> \<open>the terms added one after the other to a start value, each addition rounded\<close>
  "float_sum_from start xs = foldl fadd start xs"

definition phase_added :: "meter_row \<Rightarrow> nat \<Rightarrow> totals \<Rightarrow> totals" where
  \<comment> \<open>the totals after the two additions for phase \<open>i\<close>\<close>
  "phase_added r i t =
     t\<lparr>cons := (cons t)[i := fadd (cons t ! i) (kwh_of (consumption r ! i))],
       prod := (prod t)[i := fadd (prod t ! i) (kwh_of (production r ! i))]\<rparr>"

definition entry_added :: "meter_row \<Rightarrow> totals \<Rightarrow> totals" where
  "entry_added r t = phase_added r 2 (phase_added r 1 (phase_added r 0 t))"

definition with_key :: "date \<Rightarrow> daily \<Rightarrow> daily" where
  \<comment> \<open>\<^verbatim>\<open>if d not in daily: daily[d] = ...\<close>\<close>
  "with_key d daily = (if d \<in> set (map fst daily) then daily else daily @ [(d, zero_totals)])"

definition next_daily :: "meter_row \<Rightarrow> daily \<Rightarrow> daily" where
  \<comment> \<open>the dictionary after one row that is added without an exception\<close>
  "next_daily r daily =
     update_key (row_date r) (entry_added r (entry_of daily (row_date r))) (with_key (row_date r) daily)"

section \<open>Sample inputs\<close>

definition sample_last_field :: string where
  \<comment> \<open>the last field of the line keeps the line's newline\<close>
  "sample_last_field = ''2025-08-12 14:33:20'' @ [CHR 0x0A]"

definition sample_fields :: "string list" where
  \<comment> \<open>a line of \<^verbatim>\<open>reservations.txt\<close> after \<^verbatim>\<open>split("|")\<close>\<close>
  "sample_fields = [''201'', ''Moomin Valley'', ''moomin@whitevalley.org'', ''0509876543'',
     ''2025-11-12'', ''09:00'', ''2'', ''18.50'', ''True'', ''Forest Area 1'',
     sample_last_field]"

definition sample_reservation :: reservation where
  "sample_reservation =
     \<lparr>reservationId = 201, name = ''Moomin Valley'', email = ''moomin@whitevalley.org'',
      phone = ''0509876543'', reservationDate = \<lparr>year = 2025, month = 11, day = 12\<rparr>,
      reservationTime = \<lparr>hour = 9, minute = 0, second = 0\<rparr>, durationHours = 2,
      price = Fin (37 / 2), confirmed = True, reservedResource = ''Forest Area 1'',
      createdAt = \<lparr>year = 2025, month = 8, day = 12, dt_hour = 14, dt_minute = 33,
                   dt_second = 20\<rparr>\<rparr>"



definition short_header :: "string list" where
  \<comment> \<open>a header row without the third production column\<close>
  "short_header = [''Time'', ''Consumption phase 1 Wh'', ''Consumption phase 2 Wh'',
     ''Consumption phase 3 Wh'', ''Production phase 1 Wh'', ''Production phase 2 Wh'']"

definition short_row :: "string list" where
  "short_row = [''2025-10-13T00:00:00'', ''1000'', ''250'', ''0'', ''0'', ''0'']"

definition sample_day :: date where
  "sample_day = \<lparr>year = 2025, month = 10, day = 13\<rparr>"

definition next_day :: date where
  "next_day = \<lparr>year = 2025, month = 10, day = 14\<rparr>"

definition row_wh :: "date \<Rightarrow> int \<Rightarrow> meter_row" where
  \<comment> \<open>a row at midnight of a date with one reading that is not zero, the consumption of
      phase 1\<close>
  "row_wh d n = \<lparr>timestamp = date.extend d \<lparr>dt_hour = 0, dt_minute = 0, dt_second = 0\<rparr>,
     row_date = d, consumption = [n, 0, 0], production = [0, 0, 0]\<rparr>"

definition unconfirmed_reservation :: reservation where
  \<comment> \<open>the second record of the revenue example: not confirmed, price 100, five hours\<close>
  "unconfirmed_reservation =
     sample_reservation\<lparr>durationHours := 5, price := Fin 100, confirmed := False\<rparr>"

definition huge_duration :: int where
  \<comment> \<open>a number of hours beyond the largest float\<close>
  "huge_duration = 2 ^ 1024"


definition full_header :: "string list" where
  "full_header = [''Time'', ''Consumption phase 1 Wh'', ''Consumption phase 2 Wh'',
     ''Consumption phase 3 Wh'', ''Production phase 1 Wh'', ''Production phase 2 Wh'',
     ''Production phase 3 Wh'']"

definition sample_csv :: "string list list" where
  \<comment> \<open>a week file with one hour of one Monday\<close>
  "sample_csv = [full_header, [''2025-10-13T00:00:00'', ''1000'', ''0'', ''0'', ''0'', ''0'', ''0'']]"

definition sample_names :: "string list" where
  \<comment> \<open>the names in a directory, in no particular order\<close>
  "sample_names = [''week2.csv'', ''week10.csv'', ''notes.txt'', ''week1.csv'']"

definition sample_text :: "int \<Rightarrow> string" where
  \<comment> \<open>the table of \<open>sample_csv\<close> under a week number\<close>
  "sample_text n = join [CHR 0x0A] (title_line n # header_lines @
     [''Monday       13.10.2025  1,00 | 0,00 | 0,00          0,00 | 0,00 | 0,00''] @ [[CHR 0x0A]])"

definition superscript_name :: string where
  \<comment> \<open>the file name \<^verbatim>\<open>week\<close>, superscript two (U+00B2), \<^verbatim>\<open>.csv\<close>\<close>
  "superscript_name = ''week'' @ [CHR 0xB2] @ ''.csv''"

section \<open>Digits\<close>

lemma is_decimal_iff: "is_decimal c \<longleftrightarrow> 48 \<le> (of_char c :: int) \<and> (of_char c :: int) \<le> 57"
proof -
  have "(of_char c :: int) = int (of_char c)" by (simp add: of_nat_of_char)
  then show ?thesis by (simp add: is_decimal_def less_eq_char_def)
qed

lemma digit_val_range: "is_decimal c \<Longrightarrow> 0 \<le> digit_val c \<and> digit_val c \<le> 9"
  by (simp add: is_decimal_iff digit_val_def)

lemma digit_char_decimal: "0 \<le> k \<Longrightarrow> k < 10 \<Longrightarrow> is_decimal (digit_char k)"
  by (simp add: is_decimal_iff digit_char_def)

lemma digit_val_char: "0 \<le> k \<Longrightarrow> k < 10 \<Longrightarrow> digit_val (digit_char k) = k"
  by (simp add: digit_val_def digit_char_def)

lemma digit_char_val: "is_decimal c \<Longrightarrow> digit_char (digit_val c) = c"
  by (simp add: digit_val_def digit_char_def)

lemma decimal_not_point: "is_decimal c \<Longrightarrow> c \<noteq> CHR ''.''"
  by (auto simp add: is_decimal_def)

lemma dec_digits_decimal: "0 \<le> n \<Longrightarrow> dec_digits n \<noteq> [] \<and> list_all is_decimal (dec_digits n)"
proof (induction n rule: dec_digits.induct)
  case (1 n)
  show ?case
  proof (cases "n < 10")
    case True
    then show ?thesis using 1 by (simp add: dec_digits.simps [of n] digit_char_decimal)
  next
    case False
    then have "dec_digits (n div 10) \<noteq> [] \<and> list_all is_decimal (dec_digits (n div 10))"
      using 1 by simp
    moreover have "is_decimal (digit_char (n mod 10))" by (rule digit_char_decimal) simp_all
    ultimately show ?thesis using False by (simp add: dec_digits.simps [of n])
  qed
qed

lemma dec_digits_length_2:
  assumes "10 \<le> n" and "n < 100"
  shows "length (dec_digits n) = 2"
proof -
  have "n div 10 < 10" using assms(2) by arith
  then show ?thesis
    using assms(1) by (simp add: dec_digits.simps [of n] dec_digits.simps [of "n div 10"])
qed

lemma zero_pad_2:
  assumes "0 \<le> n" and "n < 100"
  shows "\<exists>a b. zero_pad 2 n = [a, b] \<and> is_decimal a \<and> is_decimal b"
proof (cases "n < 10")
  case True
  have "is_decimal (digit_char n)" using assms(1) True by (rule digit_char_decimal)
  moreover have "is_decimal CHR ''0''" by (simp add: is_decimal_def)
  ultimately show ?thesis using True
    by (simp add: zero_pad_def dec_digits.simps [of n])
next
  case False
  then have l: "length (dec_digits n) = 2" using assms(2) by (simp add: dec_digits_length_2)
  then obtain a b where ab: "dec_digits n = [a, b]"
    by (auto simp add: length_Suc_conv numeral_2_eq_2)
  then show ?thesis using dec_digits_decimal [OF assms(1)] by (simp add: zero_pad_def)
qed

section \<open>Integer literals\<close>

lemma digits_tail_decimal:
  "list_all is_decimal s \<Longrightarrow>
     digits_tail acc s = Some (foldl (\<lambda>a c. 10 * a + digit_val c) acc s)"
  by (induction acc s rule: digits_tail.induct) simp_all

lemma digit_part_decimal:
  "s \<noteq> [] \<Longrightarrow> list_all is_decimal s \<Longrightarrow> digit_part s = Some (digits_val s)"
  by (cases s) (simp_all add: digit_part_def digits_val_def digits_tail_decimal)

lemma decimal_not_space: "is_decimal c \<Longrightarrow> \<not> num_space c \<and> \<not> isspace c"
  by (auto simp add: is_decimal_iff num_space_def isspace_def Let_def)

lemma decimal_not_sign: "is_decimal c \<Longrightarrow> c \<noteq> CHR ''+'' \<and> c \<noteq> CHR ''-''"
  by (auto simp add: is_decimal_def)

lemma strip_by_id: "s \<noteq> [] \<Longrightarrow> \<not> p (hd s) \<Longrightarrow> \<not> p (last s) \<Longrightarrow> strip_by p s = s"
proof -
  assume a: "s \<noteq> []" "\<not> p (hd s)" "\<not> p (last s)"
  then have "dropWhile p s = s" by (cases s) simp_all
  moreover have "dropWhile p (rev s) = rev s"
    using a by (cases "rev s") (simp_all add: hd_rev)
  ultimately show ?thesis by (simp add: strip_by_def)
qed

lemma py_int_digits:
  assumes "s \<noteq> []" and "list_all is_decimal s"
  shows "py_int s = Inr (digits_val s)"
proof -
  have h: "is_decimal (hd s)" and l: "is_decimal (last s)"
    using assms by (simp_all add: list_all_iff)
  then have "strip_by num_space s = s"
    using assms(1) decimal_not_space by (intro strip_by_id) auto
  moreover have "int_literal s = Some (digits_val s)"
    using assms h decimal_not_sign [OF h]
    by (cases s) (simp_all add: int_literal_def digit_part_decimal)
  ultimately show ?thesis by (simp add: py_int_def)
qed

section \<open>Evaluating the model\<close>

text \<open>
  Concrete floating-point results are computed by rewriting with the definitions of the
  rounding; the floor and ceiling of a quotient of numerals are integer divisions.
\<close>

lemma floor_rat_numeral: "\<lfloor>numeral a / numeral b :: rat\<rfloor> = numeral a div numeral b"
  by (metis floor_divide_of_int_eq of_int_numeral)

lemma ceiling_rat_numeral: "\<lceil>numeral a / numeral b :: rat\<rceil> = - ((- numeral a) div numeral b)"
  by (metis ceiling_divide_eq_div of_int_numeral)

lemmas float_eval = rnd_def round_mag_def ilog2_def round_even_def pow2_def Let_def
  bitlen.simps floor_rat_numeral ceiling_rat_numeral

lemmas float_literal_eval = py_float_def float_literal_def exponent_part_def digits_val_def
  digit_val_def is_decimal_def strip_by_def num_space_def lower_def pow10_def
  signed_zero_def signed_inf_def

lemma py_float_18_50: "py_float ''18.50'' = Inr (Fin (37 / 2))"
  by (simp add: float_literal_eval float_eval)

lemma sample_strip: "strip sample_last_field = ''2025-08-12 14:33:20''"
  by code_simp

lemma sample_id: "py_int ''201'' = Inr 201"
  by code_simp

lemma sample_hours: "py_int ''2'' = Inr 2"
  by code_simp

lemma sample_date: "strptime_date ''2025-11-12'' = Inr \<lparr>year = 2025, month = 11, day = 12\<rparr>"
  by code_simp

lemma sample_time: "strptime_time ''09:00'' = Inr \<lparr>hour = 9, minute = 0, second = 0\<rparr>"
  by code_simp

lemma sample_created: "strptime_datetime ''2025-08-12 14:33:20'' =
    Inr \<lparr>year = 2025, month = 8, day = 12, dt_hour = 14, dt_minute = 33, dt_second = 20\<rparr>"
  by code_simp

lemma sample_converts:
  "convert_reservation_data sample_fields =
     (sample_fields[10 := ''2025-08-12 14:33:20''], Inr sample_reservation)"
  by (simp add: convert_reservation_data_def decode_fields_def sample_fields_def
      sample_reservation_def then_e_def nth_e_def sample_strip sample_id sample_hours
      sample_date sample_time sample_created py_float_18_50)

section \<open>The reservation converter\<close>

lemma decode_fields_length: "decode_fields fs = Inr r \<Longrightarrow> 11 \<le> length fs"
  by (simp add: decode_fields_def then_e_def nth_e_def split: sum.splits if_splits)

lemma decode_fields_update8:
  assumes "decode_fields fs = Inr r"
  shows "decode_fields (fs[8 := s]) = Inr (r\<lparr>confirmed := (s = ''True'')\<rparr>)"
proof -
  have len: "11 \<le> length fs" using assms by (rule decode_fields_length)
  show ?thesis using assms len
    by (auto simp add: decode_fields_def then_e_def nth_e_def split: sum.splits if_splits)
qed

lemma decode_fields_confirmed: "decode_fields fs = Inr r \<Longrightarrow> confirmed r = (fs ! 8 = ''True'')"
  by (auto simp add: decode_fields_def then_e_def nth_e_def split: sum.splits if_splits)

lemma convert_Inr:
  assumes "snd (convert_reservation_data fs) = Inr r"
  shows "decode_fields (fs[length fs - 1 := strip (last fs)]) = Inr r" and "11 \<le> length fs"
proof -
  have ne: "fs \<noteq> []" using assms by (auto simp add: convert_reservation_data_def)
  then show d: "decode_fields (fs[length fs - 1 := strip (last fs)]) = Inr r"
    using assms by (simp add: convert_reservation_data_def Let_def)
  from decode_fields_length [OF d] show "11 \<le> length fs" by simp
qed

text \<open>
  C4. The ninth column decodes to true exactly when its text is \<^verbatim>\<open>True\<close>: in every record
  the converter returns, \<open>confirmed\<close> is the comparison of the ninth field with that
  literal, and putting any other text \<open>s\<close> in the ninth field of a line that converts
  gives a line that converts too, to the same record with \<open>confirmed\<close> false (true for
  \<^verbatim>\<open>True\<close> itself): no token in that column raises.
\<close>

theorem confirmed_only_literal_True:
  assumes "snd (convert_reservation_data fs) = Inr r"
  shows "(confirmed r \<longleftrightarrow> fs ! 8 = ''True'') \<and>
         snd (convert_reservation_data (fs[8 := s])) = Inr (r\<lparr>confirmed := (s = ''True'')\<rparr>)"
proof -
  let ?n = "length fs - 1"
  have d: "decode_fields (fs[?n := strip (last fs)]) = Inr r" and len: "11 \<le> length fs"
    using convert_Inr [OF assms] by simp_all
  have ne: "fs \<noteq> []" using len by auto
  have n8: "?n \<noteq> 8" using len by simp
  have "confirmed r = ((fs[?n := strip (last fs)]) ! 8 = ''True'')"
    using d by (rule decode_fields_confirmed)
  then have c1: "confirmed r \<longleftrightarrow> fs ! 8 = ''True''" using n8 by simp
  have l: "last (fs[8 := s]) = last fs"
    using len ne by (simp add: last_conv_nth)
  have sw: "(fs[8 := s])[?n := strip (last fs)] = (fs[?n := strip (last fs)])[8 := s]"
    using n8 by (simp add: list_update_swap)
  have "snd (convert_reservation_data (fs[8 := s])) =
          decode_fields ((fs[?n := strip (last fs)])[8 := s])"
    using ne l sw by (simp add: convert_reservation_data_def Let_def)
  also have "\<dots> = Inr (r\<lparr>confirmed := (s = ''True'')\<rparr>)"
    using d by (rule decode_fields_update8)
  finally show ?thesis using c1 by simp
qed

theorem confirmed_only_literal_True_witness:
  "snd (convert_reservation_data sample_fields) = Inr sample_reservation \<and>
   confirmed sample_reservation \<and>
   snd (convert_reservation_data (sample_fields[8 := ''true''])) =
     Inr (sample_reservation\<lparr>confirmed := False\<rparr>) \<and>
   snd (convert_reservation_data (sample_fields[8 := ''TRUE''])) =
     Inr (sample_reservation\<lparr>confirmed := False\<rparr>)"
proof -
  have h: "snd (convert_reservation_data sample_fields) = Inr sample_reservation"
    by (simp add: sample_converts)
  show ?thesis
    using h confirmed_only_literal_True [OF h, of "''true''"]
      confirmed_only_literal_True [OF h, of "''TRUE''"]
    by (simp add: sample_reservation_def)
qed

text \<open>
  C10. The converter writes into its argument: for a list of eleven fields, after the
  call (whether it returned or raised) the caller's list has the same length, its last
  element is the stripped last field, and the ten elements before it are as they were.
\<close>

theorem convert_strips_last_in_place:
  assumes "length fs = 11"
  shows "fst (convert_reservation_data fs) = fs[10 := strip (fs ! 10)] \<and>
         length (fst (convert_reservation_data fs)) = 11 \<and>
         (\<forall>i<10. fst (convert_reservation_data fs) ! i = fs ! i)"
proof -
  have ne: "fs \<noteq> []" using assms by auto
  have "last fs = fs ! 10" using assms ne by (simp add: last_conv_nth)
  then have "fst (convert_reservation_data fs) = fs[10 := strip (fs ! 10)]"
    using assms ne by (simp add: convert_reservation_data_def Let_def)
  then show ?thesis using assms by simp
qed

theorem convert_strips_last_in_place_witness:
  "length sample_fields = 11 \<and>
   fst (convert_reservation_data sample_fields) = sample_fields[10 := ''2025-08-12 14:33:20''] \<and>
   fst (convert_reservation_data sample_fields) ! 0 = ''201''"
proof -
  have h: "length sample_fields = 11" by (simp add: sample_fields_def)
  have s: "strip (sample_fields ! 10) = ''2025-08-12 14:33:20''"
    by (simp add: sample_fields_def sample_strip)
  show ?thesis
    using h s convert_strips_last_in_place [OF h] by (simp add: sample_fields_def)
qed

section \<open>Failures of the reservation reader\<close>



















section \<open>Total revenue\<close>

lemma float_of_int_cases:
  "float_of_int n = (if fits_float n then Inr (rnd (of_int n)) else Inl OverflowError)"
  by (simp add: float_of_int_def fits_float_def Let_def)

lemma revenue_terms_filter: "revenue_terms (filter confirmed rs) = revenue_terms rs"
  by (induction rs) simp_all

lemma revenue_terms_fit:
  "\<forall>r\<in>set rs. confirmed r \<longrightarrow> fits_float (durationHours r) \<Longrightarrow>
     revenue_terms rs = Inr (map revenue_term (filter confirmed rs))"
  by (induction rs) (simp_all add: then_e_def float_of_int_cases revenue_term_def)

lemma replace_decimal:
  "list_all is_decimal s \<Longrightarrow> replace_char CHR ''.'' CHR '','' s = s"
  by (induction s) (auto simp add: replace_char_def is_decimal_def)

lemma round_even_nonneg: "0 \<le> q \<Longrightarrow> 0 \<le> round_even q"
  by (auto simp add: round_even_def Let_def)

lemma amount_str_shape:
  "\<exists>ds a b. amount_str (Fin q) = (if q < 0 then ''-'' else []) @ ds @ '','' @ [a, b] \<and>
     ds \<noteq> [] \<and> list_all is_decimal (ds @ [a, b])"
proof -
  let ?n = "round_even (\<bar>q\<bar> * 100)"
  have n0: "0 \<le> ?n" by (rule round_even_nonneg) simp
  then have d: "dec_digits (?n div 100) \<noteq> [] \<and> list_all is_decimal (dec_digits (?n div 100))"
    by (intro dec_digits_decimal) (simp add: pos_imp_zdiv_nonneg_iff)
  obtain a b where ab: "zero_pad 2 (?n mod 100) = [a, b]" "is_decimal a" "is_decimal b"
    using zero_pad_2 [of "?n mod 100"] by auto
  have "amount_str (Fin q) =
      (if q < 0 then ''-'' else []) @ dec_digits (?n div 100) @ '','' @ [a, b]"
    using d ab
    by (simp add: amount_str_def format_2f_def Let_def replace_char_def
        replace_decimal [unfolded replace_char_def] decimal_not_point)
  then show ?thesis using d ab by auto
qed

lemma rnd_2: "rnd 2 = Fin 2"
  by (simp add: float_eval)

lemma product_18_50_by_2: "fmul (Fin (37 / 2)) (Fin 2) = Fin 37"
  by (simp add: fmul_def is_inf_def is_zero_def float_eval)

lemma sum_plain_37: "sum_plain [Fin 37] = Fin 37"
  by (simp add: sum_plain_def fadd_def is_inf_def float_eval)

lemma sum_compensated_37: "sum_compensated [Fin 37] = Fin 37"
  by (simp add: sum_compensated_def is_zero_def fadd_def is_inf_def float_eval)

lemma amount_37: "amount_str (Fin 37) = ''37,00''"
  by code_simp

lemma fits_2: "fits_float 2"
  by (simp add: fits_float_def is_inf_def float_eval)

lemma overflow_huge: "float_of_int huge_duration = Inl OverflowError"
  by (simp add: huge_duration_def float_of_int_def is_inf_def float_eval)

lemma nan_amount: "amount_str NaN = ''nan''"
  by code_simp

lemma py_int_huge: "py_int (''1'' @ replicate 400 CHR ''0'') = Inr (10 ^ 400)"
  by code_simp

text \<open>
  C5, as stated for every list of records, fails at two kinds of record that the converter
  does produce: a confirmed record with a duration too large for a float (the field
  \<^verbatim>\<open>1\<close> followed by 400 zeros converts to an integer) makes the product raise
  \<^verbatim>\<open>OverflowError\<close>, so nothing is printed; and a price that is not a number (the field
  \<^verbatim>\<open>nan\<close> converts) is printed as \<^verbatim>\<open>nan\<close>, with no decimals.
\<close>

theorem total_revenue_not_always_printed_counterexample:
  "total_revenue sum_plain [sample_reservation\<lparr>durationHours := huge_duration\<rparr>] = Inl OverflowError \<and>
   total_revenue sum_compensated [sample_reservation\<lparr>durationHours := huge_duration\<rparr>] =
     Inl OverflowError \<and>
   total_revenue sum_plain [sample_reservation\<lparr>price := NaN\<rparr>] =
     Inr (''Total revenue from confirmed reservations: nan '' @ euro_sign)"
  by (simp add: total_revenue_def sample_reservation_def then_e_def overflow_huge
      rnd_2 fmul_def sum_plain_def fadd_def nan_amount float_of_int_cases [of 2] fits_2)

text \<open>
  C5, amended. When the durations of the confirmed records fit a float, \<^verbatim>\<open>total_revenue\<close> prints the
  sum of \<open>price * durationHours\<close> over the confirmed records alone (the sum being the one
  the interpreter's \<^verbatim>\<open>sum\<close> computes), written with two decimals, a comma in place of the
  point, then a blank and the euro sign; a finite amount is an optional minus sign,
  digits, a comma and two digits. For a confirmed record of price 18.50 and 2 hours
  followed by one that is not confirmed, the amount printed is \<^verbatim>\<open>37,00\<close> and the euro sign,
  under either summation algorithm.
\<close>

theorem total_revenue_of_confirmed:
  assumes "\<forall>r\<in>set rs. confirmed r \<longrightarrow> fits_float (durationHours r)"
  shows "total_revenue float_sum rs =
           Inr (''Total revenue from confirmed reservations: '' @
                amount_str (float_sum (map revenue_term (filter confirmed rs))) @
                '' '' @ euro_sign) \<and>
         total_revenue float_sum (filter confirmed rs) = total_revenue float_sum rs \<and>
         (\<forall>q. float_sum (map revenue_term (filter confirmed rs)) = Fin q \<longrightarrow>
            (\<exists>ds a b. amount_str (Fin q) = (if q < 0 then ''-'' else []) @ ds @ '','' @ [a, b] \<and>
               ds \<noteq> [] \<and> list_all is_decimal (ds @ [a, b]))) \<and>
         (rs = [r1, r2] \<and> confirmed r1 \<and> price r1 = Fin (37 / 2) \<and> durationHours r1 = 2 \<and>
          \<not> confirmed r2 \<and> (float_sum = sum_plain \<or> float_sum = sum_compensated) \<longrightarrow>
            total_revenue float_sum rs =
              Inr (''Total revenue from confirmed reservations: '' @ ''37,00'' @ '' '' @ euro_sign))"
proof -
  have t: "revenue_terms rs = Inr (map revenue_term (filter confirmed rs))"
    using assms by (rule revenue_terms_fit)
  then have a: "total_revenue float_sum rs =
           Inr (''Total revenue from confirmed reservations: '' @
                amount_str (float_sum (map revenue_term (filter confirmed rs))) @
                '' '' @ euro_sign)"
    by (simp add: total_revenue_def then_e_def)
  have b: "total_revenue float_sum (filter confirmed rs) = total_revenue float_sum rs"
    by (simp add: total_revenue_def revenue_terms_filter)
  have c: "total_revenue float_sum rs =
              Inr (''Total revenue from confirmed reservations: '' @ ''37,00'' @ '' '' @ euro_sign)"
    if "rs = [r1, r2]" "confirmed r1" "price r1 = Fin (37 / 2)" "durationHours r1 = 2"
      "\<not> confirmed r2" "float_sum = sum_plain \<or> float_sum = sum_compensated"
  proof -
    have "map revenue_term (filter confirmed rs) = [Fin 37]"
      using that by (simp add: revenue_term_def rnd_2 product_18_50_by_2)
    moreover have "float_sum [Fin 37] = Fin 37"
      using that(6) sum_plain_37 sum_compensated_37 by auto
    ultimately show ?thesis using a by (simp add: amount_37)
  qed
  show ?thesis using a b c amount_str_shape by blast
qed

theorem total_revenue_of_confirmed_witness:
  "fits_float (durationHours sample_reservation) \<and>
   total_revenue sum_plain [sample_reservation, unconfirmed_reservation] =
     Inr (''Total revenue from confirmed reservations: 37,00 '' @ euro_sign) \<and>
   total_revenue sum_compensated [sample_reservation, unconfirmed_reservation] =
     Inr (''Total revenue from confirmed reservations: 37,00 '' @ euro_sign)"
proof -
  let ?rs = "[sample_reservation, unconfirmed_reservation]"
  have f: "fits_float (durationHours sample_reservation)"
    by (simp add: sample_reservation_def fits_2)
  have h: "\<forall>r\<in>set ?rs. confirmed r \<longrightarrow> fits_float (durationHours r)"
    using f by (simp add: unconfirmed_reservation_def)
  have e: "?rs = [sample_reservation, unconfirmed_reservation] \<and> confirmed sample_reservation \<and>
      price sample_reservation = Fin (37 / 2) \<and> durationHours sample_reservation = 2 \<and>
      \<not> confirmed unconfirmed_reservation"
    by (simp add: sample_reservation_def unconfirmed_reservation_def)
  note th = total_revenue_of_confirmed [OF h, THEN conjunct2, THEN conjunct2, THEN conjunct2,
      THEN mp]
  have "total_revenue sum_plain ?rs =
      Inr (''Total revenue from confirmed reservations: '' @ ''37,00'' @ '' '' @ euro_sign)"
    by (rule th) (use e in simp)
  moreover have "total_revenue sum_compensated ?rs =
      Inr (''Total revenue from confirmed reservations: '' @ ''37,00'' @ '' '' @ euro_sign)"
    by (rule th) (use e in simp)
  ultimately show ?thesis using f by simp
qed

section \<open>Reading the electricity rows\<close>

lemma expected_headers_names:
  "expected_headers = [''Time'', ''Consumption phase 1 Wh'', ''Consumption phase 2 Wh'',
     ''Consumption phase 3 Wh'', ''Production phase 1 Wh'', ''Production phase 2 Wh'',
     ''Production phase 3 Wh'']"
  by code_simp

lemma row_dict_absent: "k \<notin> set fieldnames \<Longrightarrow> row_dict fieldnames r k = None"
proof -
  assume "k \<notin> set fieldnames"
  then have "k \<notin> fst ` set (rev (zip fieldnames
      (map Some r @ replicate (length fieldnames - length r) None)))"
    by (auto dest: set_zip_leftD)
  then show ?thesis unfolding row_dict_def by (simp add: map_of_eq_None_iff)
qed

lemma read_phases_absent:
  "row (phase_key kind i) = None \<Longrightarrow> i \<in> set js \<Longrightarrow> \<exists>e. read_phases row kind js = Inl e"
  by (induction js) (auto simp add: then_e_def getitem_def split: sum.splits)

lemma decode_row_absent:
  assumes "k \<in> set expected_headers" and "row k = None"
  shows "\<exists>e. decode_row fromisoformat row = Inl e"
proof -
  consider "k = ''Time''" | i where "i \<in> set [0, 1, 2 :: nat]" "k = phase_key ''Consumption'' i"
    | i where "i \<in> set [0, 1, 2 :: nat]" "k = phase_key ''Production'' i"
    using assms(1) by (auto simp add: expected_headers_def)
  then show ?thesis
  proof cases
    case 1
    then show ?thesis using assms(2) by (simp add: decode_row_def getitem_def then_e_def)
  next
    case 2
    then obtain e where "read_phases row ''Consumption'' [0, 1, 2] = Inl e"
      using read_phases_absent [of row "''Consumption''" i "[0, 1, 2]"] assms(2) by auto
    then show ?thesis by (auto simp add: decode_row_def then_e_def split: sum.splits)
  next
    case 3
    then obtain e where "read_phases row ''Production'' [0, 1, 2] = Inl e"
      using read_phases_absent [of row "''Production''" i "[0, 1, 2]"] assms(2) by auto
    then show ?thesis by (auto simp add: decode_row_def then_e_def split: sum.splits)
  qed
qed

lemma read_rows_all_fail:
  assumes "\<And>r. \<exists>e. decode_row fromisoformat (row_dict fieldnames r) = Inl e"
    and "\<exists>r\<in>set data. r \<noteq> []"
  shows "\<exists>e. read_rows fromisoformat fieldnames acc data = Inl e"
  using assms(2)
proof (induction data arbitrary: acc)
  case Nil
  then show ?case by simp
next
  case (Cons r data)
  show ?case
  proof (cases "r = []")
    case True
    then show ?thesis using Cons by simp
  next
    case False
    obtain e where "decode_row fromisoformat (row_dict fieldnames r) = Inl e"
      using assms(1) by blast
    then show ?thesis using False by (simp add: then_e_def)
  qed
qed

lemma read_rows_no_Time:
  assumes "''Time'' \<notin> set fieldnames" and "\<exists>r\<in>set data. r \<noteq> []"
  shows "read_rows fromisoformat fieldnames acc data = Inl (KeyError ''Time'')"
  using assms(2)
proof (induction data arbitrary: acc)
  case Nil
  then show ?case by simp
next
  case (Cons r data)
  show ?case
  proof (cases "r = []")
    case True
    then show ?thesis using Cons by simp
  next
    case False
    have "decode_row fromisoformat (row_dict fieldnames r) = Inl (KeyError ''Time'')"
      using row_dict_absent [OF assms(1)] by (simp add: decode_row_def getitem_def then_e_def)
    then show ?thesis using False by (simp add: then_e_def)
  qed
qed

text \<open>
  C9, as stated, fails: the columns are looked up row by row, so a file that has only its
  header row, or only empty lines after it, is read as no rows whatever the header says.
\<close>

theorem missing_header_no_rows_counterexample:
  "read_data iso_seconds [[''Foo'', ''Bar'']] = Inr [] \<and>
   read_data iso_seconds [[''Foo'', ''Bar''], [], []] = Inr []"
  by (simp add: read_data_def)

text \<open>
  C9, amended. When one of the seven expected column names is absent from the header row
  and the file has at least one data row that is not empty, \<^verbatim>\<open>read_data\<close> raises and
  returns no rows; when the absent name is \<^verbatim>\<open>Time\<close> the exception is the \<^verbatim>\<open>KeyError\<close> of that
  name.
\<close>

theorem read_data_missing_header:
  assumes "k \<in> set expected_headers" and "k \<notin> set fieldnames" and "\<exists>r\<in>set data. r \<noteq> []"
  shows "(\<exists>e. read_data fromisoformat (fieldnames # data) = Inl e) \<and>
         (k = ''Time'' \<longrightarrow> read_data fromisoformat (fieldnames # data) = Inl (KeyError ''Time''))"
proof -
  have "\<And>r. \<exists>e. decode_row fromisoformat (row_dict fieldnames r) = Inl e"
    using decode_row_absent [OF assms(1)] row_dict_absent [OF assms(2)] by blast
  then have "\<exists>e. read_rows fromisoformat fieldnames [] data = Inl e"
    using assms(3) by (rule read_rows_all_fail)
  moreover have "k = ''Time'' \<Longrightarrow>
      read_rows fromisoformat fieldnames [] data = Inl (KeyError ''Time'')"
    using assms(2,3) by (auto intro: read_rows_no_Time)
  ultimately show ?thesis by (simp add: read_data_def)
qed

lemma short_file_raises:
  "read_data iso_seconds [short_header, short_row] = Inl (KeyError ''Production phase 3 Wh'')"
  by code_simp

theorem read_data_missing_header_witness:
  "''Production phase 3 Wh'' \<in> set expected_headers \<and>
   ''Production phase 3 Wh'' \<notin> set short_header \<and>
   (\<exists>r\<in>set [short_row]. r \<noteq> []) \<and>
   (\<exists>e. read_data iso_seconds (short_header # [short_row]) = Inl e) \<and>
   read_data iso_seconds [short_header, short_row] = Inl (KeyError ''Production phase 3 Wh'')"
proof -
  have h1: "''Production phase 3 Wh'' \<in> set expected_headers"
    by (simp add: expected_headers_names)
  have h2: "''Production phase 3 Wh'' \<notin> set short_header"
    by (simp add: short_header_def)
  have h3: "\<exists>r\<in>set [short_row]. r \<noteq> []"
    by (simp add: short_row_def)
  show ?thesis
    using h1 h2 h3 read_data_missing_header [OF h1 h2 h3, of iso_seconds] short_file_raises
    by simp
qed
section \<open>The daily totals\<close>

lemma all_less_3: "(\<forall>i<3::nat. P i) \<longleftrightarrow> P 0 \<and> P 1 \<and> P 2"
  by (auto simp add: numeral_3_eq_3 less_Suc_eq numeral_2_eq_2)

lemma then_e_Inr_iff: "then_e m f = Inr y \<longleftrightarrow> (\<exists>x. m = Inr x \<and> f x = Inr y)"
  by (cases m) (simp_all add: then_e_def)

lemma kwh_cases: "kwh n = (if fits_float n then Inr (kwh_of n) else Inl OverflowError)"
  by (simp add: kwh_def float_of_int_def fits_float_def kwh_of_def then_e_def Let_def)

lemma add_phase_Inr:
  "add_phase r i t = Inr t' \<longleftrightarrow>
     i < length (cons t) \<and> i < length (prod t) \<and> i < length (consumption r) \<and>
     i < length (production r) \<and> fits_float (consumption r ! i) \<and> fits_float (production r ! i) \<and>
     t' = phase_added r i t"
  by (auto simp add: add_phase_def nth_e_def then_e_def kwh_cases phase_added_def)

lemma phase_added_lengths [simp]:
  "length (cons (phase_added r i t)) = length (cons t)"
  "length (prod (phase_added r i t)) = length (prod t)"
  by (simp_all add: phase_added_def)

lemma add_entry_Inr:
  assumes "length (cons t) = 3" and "length (prod t) = 3"
  shows "add_entry r t = Inr t' \<longleftrightarrow> row_ok r \<and> t' = entry_added r t"
  using assms
  unfolding add_entry_def row_ok_def all_less_3 entry_added_def
  by (simp add: then_e_Inr_iff add_phase_Inr)

lemma entry_added_lengths [simp]:
  "length (cons (entry_added r t)) = length (cons t)"
  "length (prod (entry_added r t)) = length (prod t)"
  by (simp_all add: entry_added_def)

lemma entry_added_nth:
  assumes "i < 3" and "length (cons t) = 3" and "length (prod t) = 3"
  shows "cons (entry_added r t) ! i = fadd (cons t ! i) (kwh_of (consumption r ! i))"
    and "prod (entry_added r t) ! i = fadd (prod t ! i) (kwh_of (production r ! i))"
proof -
  have "i = 0 \<or> i = 1 \<or> i = 2" using assms(1) by auto
  then show "cons (entry_added r t) ! i = fadd (cons t ! i) (kwh_of (consumption r ! i))"
    using assms(2) by (auto simp add: entry_added_def phase_added_def)
  from \<open>i = 0 \<or> i = 1 \<or> i = 2\<close>
  show "prod (entry_added r t) ! i = fadd (prod t ! i) (kwh_of (production r ! i))"
    using assms(3) by (auto simp add: entry_added_def phase_added_def)
qed

lemma keys_update_key [simp]: "map fst (update_key d t daily) = map fst daily"
  by (induction daily) auto

lemma map_of_update_key:
  "map_of (update_key d t daily) k =
     (if k = d \<and> d \<in> set (map fst daily) then Some t else map_of daily k)"
  by (induction daily) (auto simp add: rev_image_eqI)

lemma set_update_key: "(k, v) \<in> set (update_key d t daily) \<Longrightarrow> v = t \<or> (k, v) \<in> set daily"
  by (induction daily) (auto split: if_splits)

lemma well_formed_entry_of:
  assumes "well_formed daily"
  shows "length (cons (entry_of daily d)) = 3" and "length (prod (entry_of daily d)) = 3"
proof -
  have "length (cons (entry_of daily d)) = 3 \<and> length (prod (entry_of daily d)) = 3"
  proof (cases "map_of daily d")
    case None
    then show ?thesis by (simp add: entry_of_def zero_totals_def)
  next
    case (Some t)
    then have "(d, t) \<in> set daily" by (rule map_of_SomeD)
    then show ?thesis using assms Some by (auto simp add: well_formed_def entry_of_def)
  qed
  then show "length (cons (entry_of daily d)) = 3" and "length (prod (entry_of daily d)) = 3"
    by simp_all
qed

lemma keys_with_key: "set (map fst (with_key d daily)) = insert d (set (map fst daily))"
  by (auto simp add: with_key_def)

lemma map_of_with_key:
  "map_of (with_key d daily) k = (if k = d then Some (entry_of daily d) else map_of daily k)"
proof (cases "d \<in> set (map fst daily)")
  case True
  then obtain t where "map_of daily d = Some t"
    by (metis map_of_eq_None_iff not_Some_eq set_map)
  then show ?thesis using True by (simp add: with_key_def entry_of_def)
next
  case False
  then have n: "map_of daily d = None" by (simp add: map_of_eq_None_iff)
  show ?thesis
  proof (cases "k = d")
    case True
    then show ?thesis using False n by (simp add: with_key_def entry_of_def map_add_def)
  next
    case False
    then show ?thesis using \<open>d \<notin> set (map fst daily)\<close>
      by (simp add: with_key_def map_add_def split: option.splits)
  qed
qed

lemma well_formed_with_key: "well_formed daily \<Longrightarrow> well_formed (with_key d daily)"
  by (auto simp add: well_formed_def with_key_def zero_totals_def)

lemma well_formed_next_daily:
  assumes "well_formed daily"
  shows "well_formed (next_daily r daily)"
proof -
  have w: "well_formed (with_key (row_date r) daily)"
    using assms by (rule well_formed_with_key)
  have l: "length (cons (entry_added r (entry_of daily (row_date r)))) = 3"
    "length (prod (entry_added r (entry_of daily (row_date r)))) = 3"
    using well_formed_entry_of [OF assms] by simp_all
  show ?thesis
    unfolding next_daily_def well_formed_def
    using w l by (auto simp add: well_formed_def dest!: set_update_key)
qed

lemma keys_next_daily: "set (map fst (next_daily r daily)) = insert (row_date r) (set (map fst daily))"
  by (simp add: next_daily_def keys_with_key del: set_map)

lemma map_of_next_daily:
  "map_of (next_daily r daily) k =
     (if k = row_date r then Some (entry_added r (entry_of daily k)) else map_of daily k)"
  by (simp add: next_daily_def map_of_update_key keys_with_key map_of_with_key del: set_map)

lemma entry_of_next_daily:
  "entry_of (next_daily r daily) k =
     (if k = row_date r then entry_added r (entry_of daily k) else entry_of daily k)"
  by (simp add: entry_of_def map_of_next_daily)

lemma fold_rows_Cons_Inr:
  assumes "well_formed daily"
  shows "fold_rows daily (r # rows) = Inr res \<longleftrightarrow>
           row_ok r \<and> fold_rows (next_daily r daily) rows = Inr res"
proof -
  have m: "map_of (with_key (row_date r) daily) (row_date r) = Some (entry_of daily (row_date r))"
    by (simp add: map_of_with_key)
  have "fold_rows daily (r # rows) =
      then_e (add_entry r (entry_of daily (row_date r)))
        (\<lambda>t'. fold_rows (update_key (row_date r) t' (with_key (row_date r) daily)) rows)"
    using m by (simp add: Let_def with_key_def)
  then show ?thesis
    using well_formed_entry_of [OF assms, of "row_date r"]
    by (auto simp add: then_e_Inr_iff add_entry_Inr next_daily_def)
qed
lemma fold_rows_success:
  "well_formed daily0 \<Longrightarrow>
     (\<exists>daily. fold_rows daily0 rows = Inr daily) \<longleftrightarrow> (\<forall>r\<in>set rows. row_ok r)"
proof (induction rows arbitrary: daily0)
  case Nil
  then show ?case by simp
next
  case (Cons r rows)
  have "well_formed (next_daily r daily0)"
    using Cons.prems by (rule well_formed_next_daily)
  then have "(\<exists>daily. fold_rows (next_daily r daily0) rows = Inr daily) \<longleftrightarrow>
      (\<forall>r\<in>set rows. row_ok r)"
    by (rule Cons.IH)
  then show ?case
    using fold_rows_Cons_Inr [OF Cons.prems] by simp
qed

lemma fold_rows_result:
  assumes "well_formed daily0" and "fold_rows daily0 rows = Inr daily"
  shows "well_formed daily \<and>
     set (map fst daily) = set (map fst daily0) \<union> row_date ` set rows \<and>
     (\<forall>d. \<forall>i<3.
        cons (entry_of daily d) ! i =
          float_sum_from (cons (entry_of daily0 d) ! i)
            (map (\<lambda>r. kwh_of (consumption r ! i)) (on_date d rows)) \<and>
        prod (entry_of daily d) ! i =
          float_sum_from (prod (entry_of daily0 d) ! i)
            (map (\<lambda>r. kwh_of (production r ! i)) (on_date d rows)))"
  using assms
proof (induction rows arbitrary: daily0)
  case Nil
  then show ?case by (simp add: on_date_def float_sum_from_def)
next
  case (Cons r rows)
  let ?n = "next_daily r daily0"
  have w: "well_formed ?n" using Cons.prems(1) by (rule well_formed_next_daily)
  have f: "fold_rows ?n rows = Inr daily"
    using Cons.prems fold_rows_Cons_Inr [OF Cons.prems(1)] by simp
  note ih = Cons.IH [OF w f]
  have keys: "set (map fst daily) = set (map fst daily0) \<union> row_date ` set (r # rows)"
    using ih keys_next_daily [of r daily0] by auto
  have sums: "cons (entry_of daily d) ! i =
          float_sum_from (cons (entry_of daily0 d) ! i)
            (map (\<lambda>r. kwh_of (consumption r ! i)) (on_date d (r # rows))) \<and>
        prod (entry_of daily d) ! i =
          float_sum_from (prod (entry_of daily0 d) ! i)
            (map (\<lambda>r. kwh_of (production r ! i)) (on_date d (r # rows)))"
    if "i < 3" for d i
  proof -
    have a: "cons (entry_of daily d) ! i =
          float_sum_from (cons (entry_of ?n d) ! i)
            (map (\<lambda>r. kwh_of (consumption r ! i)) (on_date d rows))"
      and b: "prod (entry_of daily d) ! i =
          float_sum_from (prod (entry_of ?n d) ! i)
            (map (\<lambda>r. kwh_of (production r ! i)) (on_date d rows))"
      using ih that by simp_all
    show ?thesis
    proof (cases "row_date r = d")
      case True
      have "cons (entry_of ?n d) ! i = fadd (cons (entry_of daily0 d) ! i) (kwh_of (consumption r ! i))"
        and "prod (entry_of ?n d) ! i = fadd (prod (entry_of daily0 d) ! i) (kwh_of (production r ! i))"
        using True that well_formed_entry_of [OF Cons.prems(1), of d]
        by (simp_all add: entry_of_next_daily entry_added_nth)
      then show ?thesis using a b True by (simp add: on_date_def float_sum_from_def)
    next
      case False
      then have "entry_of ?n d = entry_of daily0 d" by (auto simp add: entry_of_next_daily)
      then show ?thesis using a b False by (simp add: on_date_def)
    qed
  qed
  show ?case using ih keys sums by blast
qed

lemma well_formed_Nil: "well_formed []"
  by (simp add: well_formed_def)









lemma kwh_0: "kwh 0 = Inr (Fin 0)"
  by (simp add: kwh_def float_of_int_def then_e_def fdiv_def is_inf_def is_zero_def signed_zero_def
      is_neg_def float_eval)

lemma kwh_code_1000: "kwh 1000 = Inr (Fin 1)"
  by (simp add: kwh_def float_of_int_def then_e_def fdiv_def is_inf_def is_zero_def float_eval)


lemma fadd_0_0: "fadd (Fin 0) (Fin 0) = Fin 0"
  by (simp add: fadd_def is_inf_def rnd_def)

lemma fadd_0_1: "fadd (Fin 0) (Fin 1) = Fin 1"
  by (simp add: fadd_def is_inf_def float_eval)


lemmas totals_eval = compute_daily_totals_def add_entry_def add_phase_def nth_e_def then_e_def
  row_wh_def zero_totals_def Let_def kwh_0 fadd_0_0


lemma kwh_code_100: "kwh 100 = Inr (Fin (3602879701896397 / 36028797018963968))"
  by (simp add: kwh_def float_of_int_def then_e_def fdiv_def is_inf_def is_zero_def float_eval)

lemma kwh_code_200: "kwh 200 = Inr (Fin (3602879701896397 / 18014398509481984))"
  by (simp add: kwh_def float_of_int_def then_e_def fdiv_def is_inf_def is_zero_def float_eval)

lemma kwh_code_300: "kwh 300 = Inr (Fin (5404319552844595 / 18014398509481984))"
  by (simp add: kwh_def float_of_int_def then_e_def fdiv_def is_inf_def is_zero_def float_eval)

lemma sum_100_200_300:
  "fadd (fadd (fadd (Fin 0) (Fin (3602879701896397 / 36028797018963968)))
      (Fin (3602879701896397 / 18014398509481984))) (Fin (5404319552844595 / 18014398509481984))
   = Fin (1351079888211149 / 2251799813685248)"
  by (simp add: fadd_def is_inf_def float_eval)

lemma sum_300_200_100:
  "fadd (fadd (fadd (Fin 0) (Fin (5404319552844595 / 18014398509481984)))
      (Fin (3602879701896397 / 18014398509481984))) (Fin (3602879701896397 / 36028797018963968))
   = Fin (5404319552844595 / 9007199254740992)"
  by (simp add: fadd_def is_inf_def float_eval)

lemma ascending_totals:
  "compute_daily_totals [row_wh sample_day 100, row_wh sample_day 200, row_wh sample_day 300] =
     Inr [(sample_day, \<lparr>cons = [Fin (1351079888211149 / 2251799813685248), Fin 0, Fin 0],
                         prod = [Fin 0, Fin 0, Fin 0]\<rparr>)]"
  using sum_100_200_300
  by (simp add: totals_eval kwh_code_100 kwh_code_200 kwh_code_300)

lemma descending_totals:
  "compute_daily_totals [row_wh sample_day 300, row_wh sample_day 200, row_wh sample_day 100] =
     Inr [(sample_day, \<lparr>cons = [Fin (5404319552844595 / 9007199254740992), Fin 0, Fin 0],
                         prod = [Fin 0, Fin 0, Fin 0]\<rparr>)]"
  using sum_300_200_100
  by (simp add: totals_eval kwh_code_100 kwh_code_200 kwh_code_300)

text \<open>
  C3, as stated, fails: floating-point addition is not associative. Three rows of one day
  with 100, 200 and 300 Wh on phase 1 give the total 0.6000000000000001 in that order and
  0.6 in the opposite order.
\<close>

theorem reordering_changes_totals_counterexample:
  "mset [row_wh sample_day 300, row_wh sample_day 200, row_wh sample_day 100] =
     mset [row_wh sample_day 100, row_wh sample_day 200, row_wh sample_day 300] \<and>
   compute_daily_totals [row_wh sample_day 100, row_wh sample_day 200, row_wh sample_day 300] =
     Inr [(sample_day, \<lparr>cons = [Fin (1351079888211149 / 2251799813685248), Fin 0, Fin 0],
                         prod = [Fin 0, Fin 0, Fin 0]\<rparr>)] \<and>
   compute_daily_totals [row_wh sample_day 300, row_wh sample_day 200, row_wh sample_day 100] =
     Inr [(sample_day, \<lparr>cons = [Fin (5404319552844595 / 9007199254740992), Fin 0, Fin 0],
                         prod = [Fin 0, Fin 0, Fin 0]\<rparr>)] \<and>
   Fin (1351079888211149 / 2251799813685248) \<noteq> Fin (5404319552844595 / 9007199254740992)"
  by (simp add: ascending_totals descending_totals add_mset_commute)

lemma totals_eqI:
  fixes a b :: totals
  assumes "length (cons a) = 3" "length (cons b) = 3" "length (prod a) = 3" "length (prod b) = 3"
    and "\<And>i. i < 3 \<Longrightarrow> cons a ! i = cons b ! i \<and> prod a ! i = prod b ! i"
  shows "a = b"
proof -
  have "cons a = cons b" using assms by (intro nth_equalityI) simp_all
  moreover have "prod a = prod b" using assms by (intro nth_equalityI) simp_all
  ultimately show ?thesis by simp
qed

lemma map_of_by_entry:
  "map_of daily d = (if d \<in> set (map fst daily) then Some (entry_of daily d) else None)"
proof (cases "map_of daily d")
  case None
  then show ?thesis by (simp add: map_of_eq_None_iff)
next
  case (Some t)
  then have "d \<in> set (map fst daily)"
    by (metis map_of_eq_None_iff option.distinct(1) set_map)
  then show ?thesis using Some by (simp add: entry_of_def)
qed

text \<open>
  C3, amended. For every permutation of the rows \<^verbatim>\<open>compute_daily_totals\<close> returns again,
  with the same set of dates as keys; and when the permutation keeps the rows of each date
  in their relative order (it only moves rows of different dates past each other), the
  totals of every date are the same, so the two dictionaries are equal. Reordering the
  rows of one date can change a total by rounding.
\<close>

theorem totals_under_reordering:
  assumes "mset rows' = mset rows" and "compute_daily_totals rows = Inr daily"
  shows "\<exists>daily'. compute_daily_totals rows' = Inr daily' \<and>
           set (map fst daily') = set (map fst daily) \<and>
           ((\<forall>d. on_date d rows' = on_date d rows) \<longrightarrow> map_of daily' = map_of daily)"
proof -
  have s: "set rows' = set rows" using assms(1) by (rule mset_eq_setD)
  have f: "fold_rows [] rows = Inr daily"
    using assms(2) by (simp add: compute_daily_totals_def)
  then have "\<forall>r\<in>set rows. row_ok r"
    using fold_rows_success [OF well_formed_Nil, of rows] by blast
  then have "\<forall>r\<in>set rows'. row_ok r" using s by simp
  then obtain daily' where f': "fold_rows [] rows' = Inr daily'"
    using fold_rows_success [OF well_formed_Nil, of rows'] by blast
  note r = fold_rows_result [OF well_formed_Nil f]
  note r' = fold_rows_result [OF well_formed_Nil f']
  have k: "set (map fst daily') = set (map fst daily)" using r r' s by simp
  have m: "map_of daily' = map_of daily" if o: "\<forall>d. on_date d rows' = on_date d rows"
  proof
    fix d
    have "entry_of daily' d = entry_of daily d"
    proof (rule totals_eqI)
      show "length (cons (entry_of daily' d)) = 3" "length (prod (entry_of daily' d)) = 3"
        using r' by (simp_all add: well_formed_entry_of)
      show "length (cons (entry_of daily d)) = 3" "length (prod (entry_of daily d)) = 3"
        using r by (simp_all add: well_formed_entry_of)
      show "cons (entry_of daily' d) ! i = cons (entry_of daily d) ! i \<and>
            prod (entry_of daily' d) ! i = prod (entry_of daily d) ! i" if "i < 3" for i
        using r r' o that by simp
    qed
    then show "map_of daily' d = map_of daily d"
      using k by (simp add: map_of_by_entry del: set_map)
  qed
  show ?thesis using f' k m by (auto simp add: compute_daily_totals_def)
qed

lemma kwh_sum_100_300:
  "fadd (fadd (Fin 0) (Fin (3602879701896397 / 36028797018963968)))
      (Fin (5404319552844595 / 18014398509481984)) = Fin (3602879701896397 / 9007199254740992)"
  by (simp add: fadd_def is_inf_def float_eval)

lemma kwh_sum_200:
  "fadd (Fin 0) (Fin (3602879701896397 / 18014398509481984)) =
     Fin (3602879701896397 / 18014398509481984)"
  by (simp add: fadd_def is_inf_def float_eval)

lemma interleaved_totals:
  "compute_daily_totals [row_wh sample_day 100, row_wh next_day 200, row_wh sample_day 300] =
     Inr [(sample_day, \<lparr>cons = [Fin (3602879701896397 / 9007199254740992), Fin 0, Fin 0],
                         prod = [Fin 0, Fin 0, Fin 0]\<rparr>),
          (next_day, \<lparr>cons = [Fin (3602879701896397 / 18014398509481984), Fin 0, Fin 0],
                       prod = [Fin 0, Fin 0, Fin 0]\<rparr>)]"
  using kwh_sum_100_300 kwh_sum_200
  by (simp add: totals_eval kwh_code_100 kwh_code_200 kwh_code_300 sample_day_def next_day_def)

theorem totals_under_reordering_witness:
  "mset [row_wh next_day 200, row_wh sample_day 100, row_wh sample_day 300] =
     mset [row_wh sample_day 100, row_wh next_day 200, row_wh sample_day 300] \<and>
   (\<forall>d. on_date d [row_wh next_day 200, row_wh sample_day 100, row_wh sample_day 300] =
        on_date d [row_wh sample_day 100, row_wh next_day 200, row_wh sample_day 300]) \<and>
   (\<exists>daily'. compute_daily_totals [row_wh next_day 200, row_wh sample_day 100, row_wh sample_day 300]
        = Inr daily' \<and>
      set (map fst daily') = {sample_day, next_day} \<and>
      map_of daily' sample_day =
        Some \<lparr>cons = [Fin (3602879701896397 / 9007199254740992), Fin 0, Fin 0],
              prod = [Fin 0, Fin 0, Fin 0]\<rparr>)"
proof -
  let ?rows = "[row_wh sample_day 100, row_wh next_day 200, row_wh sample_day 300]"
  let ?rows' = "[row_wh next_day 200, row_wh sample_day 100, row_wh sample_day 300]"
  have h1: "mset ?rows' = mset ?rows" by (simp add: add_mset_commute)
  note h2 = interleaved_totals
  have h3: "\<forall>d. on_date d ?rows' = on_date d ?rows"
    by (auto simp add: on_date_def row_wh_def sample_day_def next_day_def)
  obtain daily' where d: "compute_daily_totals ?rows' = Inr daily'"
    and k: "set (map fst daily') = set (map fst
        [(sample_day, \<lparr>cons = [Fin (3602879701896397 / 9007199254740992), Fin 0, Fin 0],
                         prod = [Fin 0, Fin 0, Fin 0]\<rparr>),
          (next_day, \<lparr>cons = [Fin (3602879701896397 / 18014398509481984), Fin 0, Fin 0],
                       prod = [Fin 0, Fin 0, Fin 0]\<rparr>)])"
    and m: "(\<forall>d. on_date d ?rows' = on_date d ?rows) \<longrightarrow> map_of daily' = map_of
        [(sample_day, \<lparr>cons = [Fin (3602879701896397 / 9007199254740992), Fin 0, Fin 0],
                         prod = [Fin 0, Fin 0, Fin 0]\<rparr>),
          (next_day, \<lparr>cons = [Fin (3602879701896397 / 18014398509481984), Fin 0, Fin 0],
                       prod = [Fin 0, Fin 0, Fin 0]\<rparr>)]"
    using totals_under_reordering [OF h1 h2] by blast
  have "map_of daily' sample_day =
        Some \<lparr>cons = [Fin (3602879701896397 / 9007199254740992), Fin 0, Fin 0],
              prod = [Fin 0, Fin 0, Fin 0]\<rparr>"
    using m h3 by simp
  moreover have "set (map fst daily') = {sample_day, next_day}" using k by simp
  ultimately show ?thesis using h1 h3 d by blast
qed

section \<open>The weekly table\<close>






lemma join_three: "join sep [a, b, c] = a @ sep @ b @ sep @ c"
  by simp








lemma empty_table: "generate_table_text w [] =
    Inr (''Week '' @ str_int w @ '' - Electricity Report (kWh)'' @ [CHR 0x0A, CHR 0x0A] @
         ''Day          Date        Consumption (kWh)      Production (kWh)'' @ [CHR 0x0A] @
         ''           (dd.mm.yyyy)  v1    | v2   | v3           v1   |  v2  | v3'' @ [CHR 0x0A] @
         replicate 70 CHR ''-'' @ [CHR 0x0A, CHR 0x0A])"
  by (simp add: generate_table_text_def sorted_dates_def then_e_def title_line_def header_lines_def)





section \<open>The batch driver\<close>

lemma sample_files: "csv_files sample_names = [''week1.csv'', ''week10.csv'', ''week2.csv'']"
  by code_simp

lemma sample_week_numbers:
  "map week_number_of [''week1.csv'', ''week10.csv'', ''week2.csv''] = [Inr 1, Inr 10, Inr 2]"
  by code_simp

lemma no_digits_week: "week_number_of ''week.csv'' = Inr 0"
  by code_simp

lemma sample_rows:
  "read_data iso_seconds sample_csv =
     Inr [\<lparr>timestamp = \<lparr>year = 2025, month = 10, day = 13, dt_hour = 0, dt_minute = 0, dt_second = 0\<rparr>,
           row_date = \<lparr>year = 2025, month = 10, day = 13\<rparr>,
           consumption = [1000, 0, 0], production = [0, 0, 0]\<rparr>]"
  by code_simp

lemma sample_rows_totals:
  "compute_daily_totals
     [\<lparr>timestamp = \<lparr>year = 2025, month = 10, day = 13, dt_hour = 0, dt_minute = 0, dt_second = 0\<rparr>,
           row_date = \<lparr>year = 2025, month = 10, day = 13\<rparr>,
           consumption = [1000, 0, 0], production = [0, 0, 0]\<rparr>] =
     Inr [(sample_day, \<lparr>cons = [Fin 1, Fin 0, Fin 0], prod = [Fin 0, Fin 0, Fin 0]\<rparr>)]"
  by (simp add: totals_eval sample_day_def kwh_code_1000 fadd_0_1)

lemma sample_table_rows:
  "table_rows [(sample_day, \<lparr>cons = [Fin 1, Fin 0, Fin 0], prod = [Fin 0, Fin 0, Fin 0]\<rparr>)]
     (sorted_dates [(sample_day, \<lparr>cons = [Fin 1, Fin 0, Fin 0], prod = [Fin 0, Fin 0, Fin 0]\<rparr>)]) =
   Inr [''Monday       13.10.2025  1,00 | 0,00 | 0,00          0,00 | 0,00 | 0,00'']"
  by code_simp

lemma sample_week_text:
  "week_number_of fname = Inr n \<Longrightarrow>
     week_text iso_seconds (\<lambda>_. sample_csv) fname = Inr (sample_text n)"
  by (simp add: week_text_def then_e_def sample_rows sample_rows_totals generate_table_text_def
      sample_table_rows sample_text_def)

lemma sample_summary:
  "main iso_seconds sample_names (\<lambda>_. sample_csv) =
     Inr (join [CHR 0x0A] [sample_text 1, sample_text 10, sample_text 2])"
proof -
  have "week_number_of ''week1.csv'' = Inr 1" "week_number_of ''week10.csv'' = Inr 10"
    "week_number_of ''week2.csv'' = Inr 2"
    using sample_week_numbers by simp_all
  then show ?thesis
    by (simp add: main_def sample_files then_e_def sample_week_text)
qed

lemma table_text_ends_blank:
  "generate_table_text w daily = Inr text \<Longrightarrow> \<exists>body. text = body @ [CHR 0x0A, CHR 0x0A]"
proof -
  have j: "\<exists>body. join [CHR 0x0A] (x # xs @ [[CHR 0x0A]]) = body @ [CHR 0x0A, CHR 0x0A]" for x xs
  proof (induction xs arbitrary: x)
    case Nil
    then show ?case by simp
  next
    case (Cons y ys)
    obtain body where "join [CHR 0x0A] (y # ys @ [[CHR 0x0A]]) = body @ [CHR 0x0A, CHR 0x0A]"
      using Cons by blast
    then show ?case by simp
  qed
  assume "generate_table_text w daily = Inr text"
  then obtain rows where
    "text = join [CHR 0x0A] (title_line w # (header_lines @ rows) @ [[CHR 0x0A]])"
    by (auto simp add: generate_table_text_def then_e_Inr_iff)
  then show ?thesis using j [of "title_line w" "header_lines @ rows"] by simp
qed

lemma superscript_is_digit: "isdigit (CHR 0xB2) \<and> \<not> is_decimal (CHR 0xB2)"
  by code_simp

text \<open>
  C7 is contradicted by the code for a file such as \<^verbatim>\<open>week\<close>, superscript two, \<^verbatim>\<open>.csv\<close>: the
  superscript satisfies \<^verbatim>\<open>isdigit\<close>, so it is kept as the week's digits and passes the guard
  \<^verbatim>\<open>week_digits.isdigit()\<close> that was meant to send everything else to 0; but \<^verbatim>\<open>int\<close> accepts
  decimal digits only and raises. The exception leaves \<^verbatim>\<open>main\<close>, and no summary is written,
  whatever the files contain.
\<close>

theorem superscript_week_raises:
  "matches_week_csv superscript_name \<and>
   week_number_of superscript_name = Inl (ValueError (Invalid_int_literal [CHR 0xB2])) \<and>
   main iso_seconds [''week1.csv'', superscript_name] (\<lambda>_. sample_csv) =
     Inl (ValueError (Invalid_int_literal [CHR 0xB2]))"
proof -
  have m: "matches_week_csv superscript_name" by code_simp
  have w: "week_number_of superscript_name = Inl (ValueError (Invalid_int_literal [CHR 0xB2]))"
    by code_simp
  have f: "csv_files [''week1.csv'', superscript_name] = [''week1.csv'', superscript_name]"
    by code_simp
  have "week_number_of ''week1.csv'' = Inr 1" using sample_week_numbers by simp
  then have t1: "week_text iso_seconds (\<lambda>_. sample_csv) ''week1.csv'' = Inr (sample_text 1)"
    by (rule sample_week_text)
  have t2: "week_text iso_seconds (\<lambda>_. sample_csv) superscript_name =
      Inl (ValueError (Invalid_int_literal [CHR 0xB2]))"
    using w by (simp add: week_text_def then_e_def)
  have "main iso_seconds [''week1.csv'', superscript_name] (\<lambda>_. sample_csv) =
      Inl (ValueError (Invalid_int_literal [CHR 0xB2]))"
    by (simp add: main_def f then_e_def t1 t2)
  then show ?thesis using m w by simp
qed

text \<open>
  Where every character of the stem that \<^verbatim>\<open>isdigit\<close> accepts is a decimal digit, the week
  number is the number written by the stem's digits in their order, and 0 when there is
  none.
\<close>

lemma week_number_decimal:
  assumes "\<forall>c\<in>set (stem fname). isdigit c \<longrightarrow> is_decimal c"
  shows "week_number_of fname =
     Inr (if filter is_decimal (stem fname) = [] then 0
          else digits_val (filter is_decimal (stem fname)))"
proof -
  have "filter isdigit (stem fname) = filter is_decimal (stem fname)"
    using assms by (intro filter_cong) (auto simp add: isdigit_def)
  moreover have "list_all is_decimal (filter is_decimal (stem fname))"
    by (simp add: list_all_iff)
  moreover have "list_all isdigit (filter is_decimal (stem fname))"
    by (simp add: list_all_iff isdigit_def)
  ultimately show ?thesis
    by (simp add: week_number_of_def str_isdigit_def py_int_digits)
qed

end
